theory Spec2Isabelle
  imports Complex_Main
begin

section \<open>The OBJ import command builder of XPlane2Blender\<close>

text \<open>
  A shallow embedding of \<^verbatim>\<open>io_xplane2blender/importer/xplane_imp_cmd_builder.py\<close>.
  Python floats are modelled as reals (the builder only stores, negates and sums them),
  a \<^verbatim>\<open>mathutils.Vector\<close> as a triple, Python exceptions as values of \<open>py_error\<close>.
  Objects that the source shares by reference (an animation is held both by the context
  stack and by its datablock) live in an explicit store and are named by their address.
\<close>

subsection \<open>Values and errors\<close>

type_synonym vec = "real \<times> real \<times> real"

definition vadd :: "vec \<Rightarrow> vec \<Rightarrow> vec" where
  "vadd a b = (case a of (ax, ay, az) \<Rightarrow> case b of (bx, by, bz) \<Rightarrow> (ax + bx, ay + by, az + bz))"

definition vscale :: "vec \<Rightarrow> real \<Rightarrow> vec" where
  "vscale a k = (case a of (ax, ay, az) \<Rightarrow> (ax * k, ay * k, az * k))"

definition vabs :: "vec \<Rightarrow> vec" where
  \<comment> \<open>\<^verbatim>\<open>Vector(map(abs, axis))\<close>\<close>
  "vabs a = (case a of (ax, ay, az) \<Rightarrow> (\<bar>ax\<bar>, \<bar>ay\<bar>, \<bar>az\<bar>))"

datatype py_error =
    IndexError
  | AttributeError
  | TypeError
  | ValueError
  | AssertionError string

definition UnsupportedDirective :: "string \<Rightarrow> py_error" where
  \<comment> \<open>\<^verbatim>\<open>assert False, f"{directive} is not supported yet"\<close>\<close>
  "UnsupportedDirective directive = AssertionError (directive @ '' is not supported yet'')"

text \<open>
  Modelled from the spec: the three constants of \<^verbatim>\<open>xplane_constants\<close>, which is not
  among the sources; the spec names the kinds \<^verbatim>\<open>transform\<close>, \<^verbatim>\<open>show\<close> and \<^verbatim>\<open>hide\<close>.
\<close>

definition ANIM_TYPE_TRANSFORM :: string where "ANIM_TYPE_TRANSFORM = ''transform''"
definition ANIM_TYPE_SHOW :: string where "ANIM_TYPE_SHOW = ''show''"
definition ANIM_TYPE_HIDE :: string where "ANIM_TYPE_HIDE = ''hide''"

subsection \<open>Datarefs, animations and keyframes\<close>

record IntermediateDataref =
  anim_type :: string
  loop :: real
  path :: string
  show_hide_v1 :: real
  show_hide_v2 :: real
  dr_values :: "real list"

definition new_dataref :: IntermediateDataref where
  \<comment> \<open>the dataclass defaults\<close>
  "new_dataref = \<lparr>anim_type = ANIM_TYPE_TRANSFORM, loop = 0, path = [],
     show_hide_v1 = 0, show_hide_v2 = 0, dr_values = []\<rparr>"

text \<open>
  \<^verbatim>\<open>rotations\<close> is a \<^verbatim>\<open>defaultdict(list)\<close> keyed by the frozen axis vector; Python
  dictionaries iterate in insertion order, so it is an association list with distinct keys.
\<close>

record IntermediateAnimation =
  locations :: "vec list"
  rotations :: "(vec \<times> real list) list"
  xp_dataref :: IntermediateDataref

definition new_animation :: IntermediateAnimation where
  "new_animation = \<lparr>locations = [], rotations = [], xp_dataref = new_dataref\<rparr>"

text \<open>
  Modelled from the spec: \<^verbatim>\<open>test_creation_helpers.KeyframeInfo\<close> is declared outside the
  sources. Its fields are the keyword arguments the builder passes; an argument that is not
  passed, or is passed as \<^verbatim>\<open>None\<close>, is \<open>None\<close>.
\<close>

record KeyframeInfo =
  idx :: nat
  dataref_path :: string
  dataref_value :: "real option"
  dataref_anim_type :: string
  dataref_show_hide_v1 :: "real option"
  dataref_show_hide_v2 :: "real option"
  location :: "vec option"
  rotation :: "vec option"

text \<open>
  \<^verbatim>\<open>recompose_rotation\<close>: the loop over \<^verbatim>\<open>self.rotations.items()\<close>, with the running
  total as accumulator. \<^verbatim>\<open>degrees[value_idx]\<close> raises IndexError out of range.
\<close>

fun recompose_loop :: "(vec \<times> real list) list \<Rightarrow> nat \<Rightarrow> vec \<Rightarrow> py_error + vec" where
  "recompose_loop [] value_idx tot_rot = Inr tot_rot"
| "recompose_loop ((axis, degrees) # rest) value_idx tot_rot =
     (if value_idx < length degrees
      then recompose_loop rest value_idx (vadd tot_rot (vscale axis (degrees ! value_idx)))
      else Inl IndexError)"

definition recompose_rotation :: "IntermediateAnimation \<Rightarrow> nat \<Rightarrow> py_error + vec" where
  "recompose_rotation self value_idx = recompose_loop (rotations self) value_idx (0, 0, 0)"

text \<open>
  The body of \<^verbatim>\<open>for value_idx, value in enumerate(self.xp_dataref.values)\<close>: the
  arguments of \<^verbatim>\<open>KeyframeInfo\<close> are evaluated in order, the location before the rotation.
\<close>

definition transform_keyframe ::
  "IntermediateAnimation \<Rightarrow> nat \<Rightarrow> nat \<Rightarrow> real \<Rightarrow> py_error + KeyframeInfo" where
  "transform_keyframe self current_frame value_idx v =
     (if locations self \<noteq> [] \<and> \<not> value_idx < length (locations self) then Inl IndexError
      else case (if rotations self \<noteq> [] then map_sum id Some (recompose_rotation self value_idx)
                 else Inr None) of
        Inl e \<Rightarrow> Inl e
      | Inr rot \<Rightarrow> Inr \<lparr>idx = current_frame,
          dataref_path = path (xp_dataref self),
          dataref_value = Some v,
          dataref_anim_type = anim_type (xp_dataref self),
          dataref_show_hide_v1 = None,
          dataref_show_hide_v2 = None,
          location = (if locations self \<noteq> [] then Some (locations self ! value_idx) else None),
          rotation = rot\<rparr>)"

fun keyframe_loop ::
  "IntermediateAnimation \<Rightarrow> nat \<Rightarrow> nat \<Rightarrow> real list \<Rightarrow> KeyframeInfo list
     \<Rightarrow> py_error + KeyframeInfo list" where
  "keyframe_loop self current_frame value_idx [] keyframe_infos = Inr keyframe_infos"
| "keyframe_loop self current_frame value_idx (v # vs) keyframe_infos =
     (case transform_keyframe self current_frame value_idx v of
        Inl e \<Rightarrow> Inl e
      | Inr k \<Rightarrow> keyframe_loop self (current_frame + 1) (value_idx + 1) vs (keyframe_infos @ [k]))"

text \<open>
  \<^verbatim>\<open>apply_animation\<close> returns the list it hands to
  \<^verbatim>\<open>test_creation_helpers.set_animation_data\<close> (the host call), or the exception.
\<close>

definition apply_animation :: "IntermediateAnimation \<Rightarrow> py_error + KeyframeInfo list" where
  "apply_animation self =
     (if anim_type (xp_dataref self) = ANIM_TYPE_TRANSFORM
      then keyframe_loop self 1 0 (dr_values (xp_dataref self)) []
      else Inr [\<lparr>idx = 1,
          dataref_path = path (xp_dataref self),
          dataref_value = None,
          dataref_anim_type = anim_type (xp_dataref self),
          dataref_show_hide_v1 = Some (show_hide_v1 (xp_dataref self)),
          dataref_show_hide_v2 = Some (show_hide_v2 (xp_dataref self)),
          location = None,
          rotation = None\<rparr>])"

subsection \<open>The vertex table and mesh building\<close>

text \<open>The fields \<^verbatim>\<open>x y z nx ny nz s t\<close> of the dataclass \<^verbatim>\<open>VT\<close>, prefixed.\<close>

record VT =
  vt_x :: real
  vt_y :: real
  vt_z :: real
  vt_nx :: real
  vt_ny :: real
  vt_nz :: real
  vt_s :: real
  vt_t :: real

record VTTable =
  vertices :: "VT list"
  idxes :: "int list"

definition py_slice_bound :: "nat \<Rightarrow> int \<Rightarrow> nat" where
  \<comment> \<open>a slice bound: negative bounds count from the end, then clamped to the list\<close>
  "py_slice_bound n i = (if i < 0 then nat (max (i + int n) 0) else min (nat i) n)"

definition py_slice :: "'a list \<Rightarrow> int \<Rightarrow> int \<Rightarrow> 'a list" where
  \<comment> \<open>\<^verbatim>\<open>xs[a:b]\<close>\<close>
  "py_slice xs a b =
     (let lo = py_slice_bound (length xs) a; hi = py_slice_bound (length xs) b
      in take (hi - lo) (drop lo xs))"

definition py_index :: "'a list \<Rightarrow> int \<Rightarrow> py_error + 'a" where
  \<comment> \<open>\<^verbatim>\<open>xs[i]\<close>; an index from \<open>- len\<close> to \<open>-1\<close> reads from the end\<close>
  "py_index xs i =
     (if 0 \<le> i \<and> i < int (length xs) then Inr (xs ! nat i)
      else if - int (length xs) \<le> i \<and> i < 0 then Inr (xs ! nat (i + int (length xs)))
      else Inl IndexError)"

text \<open>
  The first loop of \<^verbatim>\<open>build_mesh\<close>. \<^verbatim>\<open>idx_mapping\<close> is a dictionary from table index
  to compact index; only its lookups and its size are used, so it is an association list
  in insertion order.
\<close>

fun dedup_loop ::
  "VT list \<Rightarrow> int list \<Rightarrow> (int \<times> nat) list \<Rightarrow> VT list \<Rightarrow> py_error + ((int \<times> nat) list \<times> VT list)" where
  "dedup_loop table [] idx_mapping verts = Inr (idx_mapping, verts)"
| "dedup_loop table (mesh_idx # rest) idx_mapping verts =
     (if map_of idx_mapping mesh_idx = None
      then (case py_index table mesh_idx of
              Inl e \<Rightarrow> Inl e
            | Inr v \<Rightarrow> dedup_loop table rest (idx_mapping @ [(mesh_idx, length idx_mapping)]) (verts @ [v]))
      else dedup_loop table rest idx_mapping verts)"

fun chunk :: "'a list \<Rightarrow> 'a list list" where
  \<comment> \<open>\<^verbatim>\<open>chunk(it, 3)\<close>: tuples of three, the last one shorter when the length is no multiple\<close>
  "chunk (a # b # c # rest) = [a, b, c] # chunk rest"
| "chunk [] = []"
| "chunk xs = [xs]"

definition remap_face :: "(int \<times> nat) list \<Rightarrow> int list \<Rightarrow> nat list" where
  \<comment> \<open>\<^verbatim>\<open>[idx_mapping[idx] for idx in face][::-1]\<close>; every index of a face is in the mapping\<close>
  "remap_face idx_mapping face = rev (map (\<lambda>i. the (map_of idx_mapping i)) face)"

record MeshData =
  mesh_vertices :: "VT list"
  mesh_faces :: "nat list list"

definition mesh_data :: "VTTable \<Rightarrow> int \<Rightarrow> int \<Rightarrow> py_error + MeshData" where
  "mesh_data vt_table start cnt =
     (let mesh_idxes = py_slice (idxes vt_table) start (start + cnt)
      in case dedup_loop (vertices vt_table) mesh_idxes [] [] of
           Inl e \<Rightarrow> Inl e
         | Inr (idx_mapping, verts) \<Rightarrow>
             Inr \<lparr>mesh_vertices = verts,
                  mesh_faces = map (remap_face idx_mapping) (chunk mesh_idxes)\<rparr>)"

text \<open>
  The object \<^verbatim>\<open>build_mesh\<close> returns, as far as the builder determines it: the
  coordinates and faces given to \<^verbatim>\<open>From_PyData\<close>, the normals and UVs assigned by
  vertex index, and the messages logged. \<^verbatim>\<open>me.validate\<close> is the host's
  (\<^verbatim>\<open>bpy.types.Mesh.validate\<close> returns True when it found invalid geometry and
  corrected it); its result is the parameter \<open>found_invalid\<close>. The loop
  \<^verbatim>\<open>for idx in set(chain.from_iterable(faces))\<close> assigns to distinct indices, so its
  effect is a map whatever the order of the set.
\<close>

record MeshObject =
  ob_name :: string
  ob_parent :: "string option"
  ob_coords :: "vec list"
  ob_faces :: "nat list list"
  ob_normals :: "nat \<Rightarrow> vec option"
  ob_uvs :: "nat \<Rightarrow> (real \<times> real) option"
  ob_material :: string
  ob_logged :: "string list"

definition assign_normals :: "VT list \<Rightarrow> nat list list \<Rightarrow> nat \<Rightarrow> vec option" where
  "assign_normals verts faces =
     (\<lambda>i. if i \<in> set (concat faces) then Some (vt_nx (verts ! i), vt_ny (verts ! i), vt_nz (verts ! i))
          else None)"

definition assign_uvs :: "VT list \<Rightarrow> nat list list \<Rightarrow> nat \<Rightarrow> (real \<times> real) option" where
  "assign_uvs verts faces =
     (\<lambda>i. if i \<in> set (concat faces) then Some (vt_s (verts ! i), vt_t (verts ! i)) else None)"

text \<open>
  Modelled from the spec: \<^verbatim>\<open>DatablockInfo\<close> and \<^verbatim>\<open>ParentInfo\<close> are declared in
  \<^verbatim>\<open>test_creation_helpers\<close>, outside the sources. The builder writes the two kinds
  \<^verbatim>\<open>"EMPTY"\<close> and \<^verbatim>\<open>"MESH"\<close> only; \<open>parent_info\<close> is the parent's name, or \<open>None\<close>.
\<close>

datatype datablock_kind = EMPTY | MESH

record DatablockInfo =
  datablock_type :: datablock_kind
  name :: string
  parent_info :: "string option"
  collection :: string

text \<open>\<open>animations_to_apply\<close> holds the addresses of the animations in the builder's store.\<close>

record IntermediateDatablock =
  datablock_info :: DatablockInfo
  start_idx :: "int option"
  count :: "int option"
  animations_to_apply :: "nat list"

definition build_mesh ::
  "(MeshData \<Rightarrow> bool) \<Rightarrow> IntermediateDatablock \<Rightarrow> VTTable \<Rightarrow> py_error + MeshObject" where
  "build_mesh validate self vt_table =
     (case (start_idx self, count self) of
        (Some start, Some cnt) \<Rightarrow>
          (case mesh_data vt_table start cnt of
             Inl e \<Rightarrow> Inl e
           | Inr md \<Rightarrow>
               (let found_invalid = validate md;
                    ob = \<lparr>ob_name = name (datablock_info self),
                          ob_parent = parent_info (datablock_info self),
                          ob_coords = map (\<lambda>v. (vt_x v, vt_y v, vt_z v)) (mesh_vertices md),
                          ob_faces = mesh_faces md,
                          ob_normals = Map.empty, ob_uvs = Map.empty,
                          ob_material = [], ob_logged = []\<rparr>;
                    ob = (if \<not> found_invalid
                          then ob\<lparr>ob_normals := assign_normals (mesh_vertices md) (mesh_faces md),
                                  ob_uvs := assign_uvs (mesh_vertices md) (mesh_faces md)\<rparr>
                          else ob\<lparr>ob_logged := [''Mesh was not valid, check console for more'']\<rparr>)
                in Inr (ob\<lparr>ob_material := ''Material''\<rparr>)))
      | _ \<Rightarrow> Inl TypeError)"

subsection \<open>The builder's state\<close>

text \<open>
  A context-stack entry holds two references: the animation (an address in \<open>anim_store\<close>)
  and the datablock (its position in \<open>blocks\<close>, which only ever grows). Both deques are
  lists with the top (Python's \<^verbatim>\<open>[-1]\<close>) at the head. The root datablock is never
  mutated while building, so the attribute \<open>root_intermediate_datablock\<close> holds its value
  (the same object is \<open>blocks\<close>' first element). \<open>name_tag\<close> stands for
  \<^verbatim>\<open>hex(hash(self.root_collection.name))[2:6]\<close>, which Python fixes per process.
\<close>

record AnimIntermediateStackEntry =
  animation :: nat
  intermediate_datablock :: nat

record ImpCommandBuilder =
  root_collection :: string
  name_tag :: string
  vt_table :: VTTable
  root_intermediate_datablock :: IntermediateDatablock
  blocks :: "IntermediateDatablock list"
  last_axis :: "vec option"
  anim_intermediate_stack :: "AnimIntermediateStackEntry list"
  anim_count :: "nat list"
  anim_store :: "IntermediateAnimation list"

definition new_root :: "string \<Rightarrow> IntermediateDatablock" where
  "new_root coll =
     \<lparr>datablock_info = \<lparr>datablock_type = EMPTY, name = ''INTER_ROOT'', parent_info = None,
                         collection = coll\<rparr>,
      start_idx = None, count = None, animations_to_apply = []\<rparr>"

definition init_builder :: "string \<Rightarrow> string \<Rightarrow> ImpCommandBuilder" where
  \<comment> \<open>\<^verbatim>\<open>__init__\<close>; \<open>stem\<close> is \<^verbatim>\<open>pathlib.Path(filepath).stem\<close>\<close>
  "init_builder stem tag =
     \<lparr>root_collection = stem, name_tag = tag,
      vt_table = \<lparr>vertices = [], idxes = []\<rparr>,
      root_intermediate_datablock = new_root stem,
      blocks = [new_root stem],
      last_axis = None, anim_intermediate_stack = [], anim_count = [], anim_store = []\<rparr>"

type_synonym result = "(py_error \<times> ImpCommandBuilder) + ImpCommandBuilder"

text \<open>An exception leaves the builder as mutated so far: \<open>Inl\<close> carries that state.\<close>

definition state_of :: "result \<Rightarrow> ImpCommandBuilder" where
  "state_of r = (case r of Inl (e, b) \<Rightarrow> b | Inr b \<Rightarrow> b)"

fun dec_str :: "nat \<Rightarrow> string" where
  "dec_str n = (if n < 10 then [''0123456789'' ! n]
                else dec_str (n div 10) @ [''0123456789'' ! (n mod 10)])"

declare dec_str.simps [simp del]

definition pad3 :: "nat \<Rightarrow> string" where
  \<comment> \<open>the format \<^verbatim>\<open>{n:03}\<close>\<close>
  "pad3 n = replicate (3 - length (dec_str n)) (CHR ''0'') @ dec_str n"

definition count_kind :: "datablock_kind \<Rightarrow> IntermediateDatablock list \<Rightarrow> nat" where
  "count_kind k bs = length (filter (\<lambda>block. datablock_type (datablock_info block) = k) bs)"

definition next_empty_name :: "ImpCommandBuilder \<Rightarrow> string" where
  "next_empty_name self = ''ImpEmpty.'' @ pad3 (count_kind EMPTY (blocks self)) @ ''_'' @ name_tag self"

definition next_object_name :: "ImpCommandBuilder \<Rightarrow> string" where
  "next_object_name self = ''ImpMesh.'' @ pad3 (count_kind MESH (blocks self)) @ ''_'' @ name_tag self"

definition top_animation :: "ImpCommandBuilder \<Rightarrow> nat option" where
  "top_animation self =
     (case anim_intermediate_stack self of [] \<Rightarrow> None | e # _ \<Rightarrow> Some (animation e))"

definition top_intermediate_datablock :: "ImpCommandBuilder \<Rightarrow> IntermediateDatablock option" where
  "top_intermediate_datablock self =
     (case anim_intermediate_stack self of [] \<Rightarrow> None
      | e # _ \<Rightarrow> Some (blocks self ! intermediate_datablock e))"

definition with_top_animation ::
  "(IntermediateAnimation \<Rightarrow> IntermediateAnimation) \<Rightarrow> ImpCommandBuilder \<Rightarrow> result" where
  \<comment> \<open>a mutation of \<^verbatim>\<open>self._top_animation\<close>; on an empty stack the property is \<^verbatim>\<open>None\<close>
      and the attribute access raises\<close>
  "with_top_animation f self =
     (case top_animation self of
        None \<Rightarrow> Inl (AttributeError, self)
      | Some a \<Rightarrow> Inr (self\<lparr>anim_store := (anim_store self)[a := f (anim_store self ! a)]\<rparr>))"

definition with_top_dataref ::
  "(IntermediateDataref \<Rightarrow> IntermediateDataref) \<Rightarrow> ImpCommandBuilder \<Rightarrow> result" where
  "with_top_dataref f = with_top_animation (\<lambda>a. a\<lparr>xp_dataref := f (xp_dataref a)\<rparr>)"

definition begin_new_frame :: "ImpCommandBuilder \<Rightarrow> result" where
  "begin_new_frame self =
     (let parent = (case top_intermediate_datablock self of
                      None \<Rightarrow> root_intermediate_datablock self
                    | Some b \<Rightarrow> b);
          empt = \<lparr>datablock_info = \<lparr>datablock_type = EMPTY, name = next_empty_name self,
                     parent_info = Some (name (datablock_info parent)),
                     collection = root_collection self\<rparr>,
                  start_idx = None, count = None, animations_to_apply = []\<rparr>;
          a = length (anim_store self);
          self1 = self\<lparr>blocks := blocks self @ [empt],
                       anim_store := anim_store self @ [new_animation],
                       anim_intermediate_stack :=
                         \<lparr>animation = a, intermediate_datablock = length (blocks self)\<rparr>
                           # anim_intermediate_stack self\<rparr>
      in case anim_count self1 of
           [] \<Rightarrow> Inl (IndexError, self1)
         | c # cs \<Rightarrow>
             Inr (self1\<lparr>anim_count := (c + 1) # cs,
                        blocks := blocks self @ [empt\<lparr>animations_to_apply := [a]\<rparr>]\<rparr>))"

fun pop_contexts :: "nat \<Rightarrow> ImpCommandBuilder \<Rightarrow> result" where
  \<comment> \<open>\<^verbatim>\<open>for i in range(n): self._anim_intermediate_stack.pop()\<close>\<close>
  "pop_contexts 0 self = Inr self"
| "pop_contexts (Suc n) self =
     (case anim_intermediate_stack self of
        [] \<Rightarrow> Inl (IndexError, self)
      | _ # rest \<Rightarrow> pop_contexts n (self\<lparr>anim_intermediate_stack := rest\<rparr>))"

definition rotations_append :: "vec \<Rightarrow> real \<Rightarrow> (vec \<times> real list) list \<Rightarrow> (vec \<times> real list) list" where
  \<comment> \<open>\<^verbatim>\<open>rotations[key].append(d)\<close> on the defaultdict: a missing key is inserted last\<close>
  "rotations_append key d rots =
     (if key \<in> fst ` set rots
      then map (\<lambda>(k, ds). if k = key then (k, ds @ [d]) else (k, ds)) rots
      else rots @ [(key, [d])])"

definition bind :: "result \<Rightarrow> (ImpCommandBuilder \<Rightarrow> result) \<Rightarrow> result" where
  "bind r f = (case r of Inl e \<Rightarrow> Inl e | Inr b \<Rightarrow> f b)"

subsection \<open>Directive arguments\<close>

text \<open>
  \<^verbatim>\<open>build_cmd\<close> takes the directive's name and \<^verbatim>\<open>*args\<close>. Its docstring requires
  every argument, in order and correctly typed; the arguments are read before anything is
  mutated. A missing argument raises as in the source (\<^verbatim>\<open>args[i]\<close>: IndexError; an
  unpacking of a short slice: ValueError; a wrong number of vertex fields: TypeError).
  An argument of the wrong type, which the docstring excludes, is answered with TypeError.
\<close>

datatype arg = AInt int | AFloat real | AStr string | AVec vec

fun num_of :: "arg \<Rightarrow> real option" where
  "num_of (AInt i) = Some (of_int i)"
| "num_of (AFloat r) = Some r"
| "num_of _ = None"

definition vt_args :: "arg list \<Rightarrow> py_error + VT" where
  \<comment> \<open>\<^verbatim>\<open>VT(*args)\<close>\<close>
  "vt_args args =
     (if length args \<noteq> 8 \<or> None \<in> set (map num_of args) then Inl TypeError
      else let f = (\<lambda>i. the (num_of (args ! i)))
           in Inr \<lparr>vt_x = f 0, vt_y = f 1, vt_z = f 2, vt_nx = f 3, vt_ny = f 4, vt_nz = f 5,
                   vt_s = f 6, vt_t = f 7\<rparr>)"

fun int_of :: "arg \<Rightarrow> int option" where
  "int_of (AInt i) = Some i"
| "int_of _ = None"

definition idx_args :: "arg list \<Rightarrow> py_error + int" where
  "idx_args args =
     (if length args < 1 then Inl IndexError
      else case int_of (args ! 0) of Some i \<Rightarrow> Inr i | None \<Rightarrow> Inl TypeError)"

definition idx10_args :: "arg list \<Rightarrow> py_error + int list" where
  "idx10_args args =
     (if None \<in> set (map int_of args) then Inl TypeError
      else Inr (map (\<lambda>a. the (int_of a)) args))"

definition tris_args :: "arg list \<Rightarrow> py_error + (int \<times> int)" where
  "tris_args args =
     (if length args < 2 then Inl IndexError
      else case (int_of (args ! 0), int_of (args ! 1)) of
             (Some a, Some b) \<Rightarrow> Inr (a, b)
           | _ \<Rightarrow> Inl TypeError)"

definition path_args :: "arg list \<Rightarrow> py_error + string" where
  "path_args args =
     (if length args < 1 then Inl IndexError
      else case args ! 0 of AStr p \<Rightarrow> Inr p | _ \<Rightarrow> Inl TypeError)"

definition trans_key_args :: "arg list \<Rightarrow> py_error + (real \<times> vec)" where
  "trans_key_args args =
     (if length args < 2 then Inl IndexError
      else case (num_of (args ! 0), args ! 1) of
             (Some v, AVec l) \<Rightarrow> Inr (v, l)
           | _ \<Rightarrow> Inl TypeError)"

definition show_hide_args :: "arg list \<Rightarrow> py_error + (real \<times> real \<times> string)" where
  \<comment> \<open>\<^verbatim>\<open>v1, v2 = args[:2]\<close>, then \<^verbatim>\<open>args[2]\<close>\<close>
  "show_hide_args args =
     (if length args < 2 then Inl ValueError
      else if length args < 3 then Inl IndexError
      else case (num_of (args ! 0), num_of (args ! 1), args ! 2) of
             (Some v1, Some v2, AStr p) \<Rightarrow> Inr (v1, v2, p)
           | _ \<Rightarrow> Inl TypeError)"

definition rotate_begin_args :: "arg list \<Rightarrow> py_error + (vec \<times> string)" where
  "rotate_begin_args args =
     (if length args < 2 then Inl IndexError
      else case (args ! 0, args ! 1) of
             (AVec axis, AStr p) \<Rightarrow> Inr (axis, p)
           | _ \<Rightarrow> Inl TypeError)"

definition rotate_key_args :: "arg list \<Rightarrow> py_error + (real \<times> real)" where
  "rotate_key_args args =
     (if length args < 2 then Inl IndexError
      else case (num_of (args ! 0), num_of (args ! 1)) of
             (Some v, Some d) \<Rightarrow> Inr (v, d)
           | _ \<Rightarrow> Inl TypeError)"

definition loop_args :: "arg list \<Rightarrow> py_error + real" where
  "loop_args args =
     (if length args < 1 then Inl IndexError
      else case num_of (args ! 0) of Some l \<Rightarrow> Inr l | None \<Rightarrow> Inl TypeError)"

definition trans_args :: "arg list \<Rightarrow> py_error + (vec \<times> vec \<times> real \<times> real \<times> string)" where
  \<comment> \<open>\<^verbatim>\<open>args[0]\<close>, \<^verbatim>\<open>args[1]\<close>, \<^verbatim>\<open>v1, v2 = args[2:4]\<close>, \<^verbatim>\<open>args[4]\<close>\<close>
  "trans_args args =
     (if length args < 2 then Inl IndexError
      else if length args < 4 then Inl ValueError
      else if length args < 5 then Inl IndexError
      else case (args ! 0, args ! 1, num_of (args ! 2), num_of (args ! 3), args ! 4) of
             (AVec xyz1, AVec xyz2, Some v1, Some v2, AStr p) \<Rightarrow> Inr (xyz1, xyz2, v1, v2, p)
           | _ \<Rightarrow> Inl TypeError)"

definition rotate_args ::
  "arg list \<Rightarrow> py_error + (vec \<times> real \<times> real \<times> real \<times> real \<times> string)" where
  \<comment> \<open>\<^verbatim>\<open>args[0]\<close>, \<^verbatim>\<open>r1, r2 = args[1:3]\<close>, \<^verbatim>\<open>v1, v2 = args[3:5]\<close>, \<^verbatim>\<open>args[5]\<close>\<close>
  "rotate_args args =
     (if length args < 1 then Inl IndexError
      else if length args < 5 then Inl ValueError
      else if length args < 6 then Inl IndexError
      else case (args ! 0, num_of (args ! 1), num_of (args ! 2), num_of (args ! 3),
                 num_of (args ! 4), args ! 5) of
             (AVec dxyz, Some r1, Some r2, Some v1, Some v2, AStr p) \<Rightarrow>
               Inr (dxyz, r1, r2, v1, v2, p)
           | _ \<Rightarrow> Inl TypeError)"

definition with_args :: "py_error + 'a \<Rightarrow> ImpCommandBuilder \<Rightarrow> ('a \<Rightarrow> result) \<Rightarrow> result" where
  "with_args decoded self f = (case decoded of Inl e \<Rightarrow> Inl (e, self) | Inr a \<Rightarrow> f a)"

subsection \<open>The branches of \<^verbatim>\<open>build_cmd\<close>\<close>

definition cmd_VT :: "arg list \<Rightarrow> ImpCommandBuilder \<Rightarrow> result" where
  "cmd_VT args self = with_args (vt_args args) self (\<lambda>v.
     Inr (self\<lparr>vt_table := (vt_table self)\<lparr>vertices := vertices (vt_table self) @ [v]\<rparr>\<rparr>))"

definition cmd_IDX :: "arg list \<Rightarrow> ImpCommandBuilder \<Rightarrow> result" where
  "cmd_IDX args self = with_args (idx_args args) self (\<lambda>i.
     Inr (self\<lparr>vt_table := (vt_table self)\<lparr>idxes := idxes (vt_table self) @ [i]\<rparr>\<rparr>))"

definition cmd_IDX10 :: "arg list \<Rightarrow> ImpCommandBuilder \<Rightarrow> result" where
  "cmd_IDX10 args self = with_args (idx10_args args) self (\<lambda>is.
     Inr (self\<lparr>vt_table := (vt_table self)\<lparr>idxes := idxes (vt_table self) @ is\<rparr>\<rparr>))"

definition cmd_TRIS :: "arg list \<Rightarrow> string \<Rightarrow> ImpCommandBuilder \<Rightarrow> result" where
  "cmd_TRIS args name_hint self = with_args (tris_args args) self (\<lambda>(start, cnt).
     let parent = (case anim_intermediate_stack self of
                     [] \<Rightarrow> root_intermediate_datablock self
                   | e # _ \<Rightarrow> blocks self ! intermediate_datablock e);
         mesh_block =
           \<lparr>datablock_info = \<lparr>datablock_type = MESH,
               name = (if name_hint \<noteq> [] then name_hint else next_object_name self),
               parent_info = Some (name (datablock_info parent)),
               collection = root_collection self\<rparr>,
            start_idx = Some start, count = Some cnt, animations_to_apply = []\<rparr>
     in Inr (self\<lparr>blocks := blocks self @ [mesh_block]\<rparr>))"

definition cmd_ANIM_begin :: "ImpCommandBuilder \<Rightarrow> result" where
  "cmd_ANIM_begin self = Inr (self\<lparr>anim_count := 0 # anim_count self\<rparr>)"

definition cmd_ANIM_end :: "ImpCommandBuilder \<Rightarrow> result" where
  "cmd_ANIM_end self =
     (case anim_count self of
        [] \<Rightarrow> Inl (IndexError, self)
      | c # cs \<Rightarrow> pop_contexts c (self\<lparr>anim_count := cs\<rparr>))"

definition transform_dataref :: "string \<Rightarrow> IntermediateDataref" where
  "transform_dataref p =
     \<lparr>anim_type = ANIM_TYPE_TRANSFORM, loop = 0, path = p,
      show_hide_v1 = 0, show_hide_v2 = 0, dr_values = []\<rparr>"

definition cmd_ANIM_trans_begin :: "arg list \<Rightarrow> ImpCommandBuilder \<Rightarrow> result" where
  "cmd_ANIM_trans_begin args self = with_args (path_args args) self (\<lambda>p.
     bind (begin_new_frame self)
          (with_top_animation (\<lambda>a. a\<lparr>xp_dataref := transform_dataref p\<rparr>)))"

definition cmd_ANIM_trans_key :: "arg list \<Rightarrow> ImpCommandBuilder \<Rightarrow> result" where
  "cmd_ANIM_trans_key args self = with_args (trans_key_args args) self (\<lambda>(v, l).
     bind (with_top_animation (\<lambda>a. a\<lparr>locations := locations a @ [l]\<rparr>) self)
          (with_top_dataref (\<lambda>d. d\<lparr>dr_values := dr_values d @ [v]\<rparr>)))"

definition cmd_ANIM_show_hide :: "string \<Rightarrow> arg list \<Rightarrow> ImpCommandBuilder \<Rightarrow> result" where
  \<comment> \<open>\<^verbatim>\<open>directive.replace("ANIM_", "")\<close> removes the prefix of the two names of this branch\<close>
  "cmd_ANIM_show_hide directive args self = with_args (show_hide_args args) self (\<lambda>(v1, v2, p).
     bind (begin_new_frame self)
          (with_top_dataref (\<lambda>d. d\<lparr>anim_type := drop 5 directive, path := p,
                                    show_hide_v1 := v1, show_hide_v2 := v2\<rparr>)))"

definition cmd_ANIM_rotate_begin :: "arg list \<Rightarrow> ImpCommandBuilder \<Rightarrow> result" where
  "cmd_ANIM_rotate_begin args self = with_args (rotate_begin_args args) self (\<lambda>(axis, p).
     bind (begin_new_frame (self\<lparr>last_axis := Some (vabs axis)\<rparr>))
          (with_top_animation (\<lambda>a. a\<lparr>xp_dataref := transform_dataref p\<rparr>)))"

definition cmd_ANIM_rotate_key :: "arg list \<Rightarrow> ImpCommandBuilder \<Rightarrow> result" where
  \<comment> \<open>\<^verbatim>\<open>self._top_animation.rotations\<close> is evaluated first, then \<^verbatim>\<open>self._last_axis.freeze()\<close>;
      either raises AttributeError on \<^verbatim>\<open>None\<close>\<close>
  "cmd_ANIM_rotate_key args self = with_args (rotate_key_args args) self (\<lambda>(v, degrees).
     case top_animation self of
       None \<Rightarrow> Inl (AttributeError, self)
     | Some _ \<Rightarrow>
        (case last_axis self of
           None \<Rightarrow> Inl (AttributeError, self)
         | Some axis \<Rightarrow>
             bind (with_top_animation (\<lambda>a. a\<lparr>rotations := rotations_append axis degrees (rotations a)\<rparr>) self)
                  (with_top_dataref (\<lambda>d. d\<lparr>dr_values := dr_values d @ [v]\<rparr>))))"

definition cmd_ANIM_rotate_end :: "ImpCommandBuilder \<Rightarrow> result" where
  "cmd_ANIM_rotate_end self = Inr (self\<lparr>last_axis := None\<rparr>)"

definition cmd_ANIM_keyframe_loop :: "arg list \<Rightarrow> ImpCommandBuilder \<Rightarrow> result" where
  "cmd_ANIM_keyframe_loop args self = with_args (loop_args args) self (\<lambda>l.
     with_top_dataref (\<lambda>d. d\<lparr>loop := l\<rparr>) self)"

definition cmd_ANIM_trans :: "arg list \<Rightarrow> ImpCommandBuilder \<Rightarrow> result" where
  "cmd_ANIM_trans args self = with_args (trans_args args) self (\<lambda>(xyz1, xyz2, v1, v2, p).
     bind (begin_new_frame self) (\<lambda>self.
     bind (with_top_animation (\<lambda>a. a\<lparr>locations := locations a @ [xyz1]\<rparr>) self) (\<lambda>self.
     bind (with_top_animation (\<lambda>a. a\<lparr>locations := locations a @ [xyz2]\<rparr>) self) (\<lambda>self.
     bind (with_top_dataref (\<lambda>d. d\<lparr>dr_values := dr_values d @ [v1, v2]\<rparr>) self)
          (with_top_dataref (\<lambda>d. d\<lparr>path := p\<rparr>))))))"

definition cmd_ANIM_rotate :: "arg list \<Rightarrow> ImpCommandBuilder \<Rightarrow> result" where
  "cmd_ANIM_rotate args self = with_args (rotate_args args) self (\<lambda>(dxyz, r1, r2, v1, v2, p).
     bind (begin_new_frame self) (\<lambda>self.
     bind (with_top_animation (\<lambda>a. a\<lparr>rotations := rotations_append dxyz r1 (rotations a)\<rparr>) self) (\<lambda>self.
     bind (with_top_animation (\<lambda>a. a\<lparr>rotations := rotations_append dxyz r2 (rotations a)\<rparr>) self) (\<lambda>self.
     bind (with_top_dataref (\<lambda>d. d\<lparr>dr_values := dr_values d @ [v1, v2]\<rparr>) self)
          (with_top_dataref (\<lambda>d. d\<lparr>path := p\<rparr>))))))"

definition build_cmd :: "string \<Rightarrow> arg list \<Rightarrow> string \<Rightarrow> ImpCommandBuilder \<Rightarrow> result" where
  "build_cmd directive args name_hint self =
     (if directive = ''VT'' then cmd_VT args self
      else if directive = ''IDX'' then cmd_IDX args self
      else if directive = ''IDX10'' then cmd_IDX10 args self
      else if directive = ''TRIS'' then cmd_TRIS args name_hint self
      else if directive = ''ANIM_begin'' then cmd_ANIM_begin self
      else if directive = ''ANIM_end'' then cmd_ANIM_end self
      else if directive = ''ANIM_trans_begin'' then cmd_ANIM_trans_begin args self
      else if directive = ''ANIM_trans_key'' then cmd_ANIM_trans_key args self
      else if directive = ''ANIM_trans_end'' then Inr self
      else if directive \<in> {''ANIM_hide'', ''ANIM_show''} then cmd_ANIM_show_hide directive args self
      else if directive = ''ANIM_rotate_begin'' then cmd_ANIM_rotate_begin args self
      else if directive = ''ANIM_rotate_key'' then cmd_ANIM_rotate_key args self
      else if directive = ''ANIM_rotate_end'' then cmd_ANIM_rotate_end self
      else if directive = ''ANIM_keyframe_loop'' then cmd_ANIM_keyframe_loop args self
      else if directive = ''ANIM_trans'' then cmd_ANIM_trans args self
      else if directive = ''ANIM_rotate'' then cmd_ANIM_rotate args self
      else Inl (UnsupportedDirective directive, self))"

text \<open>A directive stream: each element is one call \<^verbatim>\<open>build_cmd(directive, *args, name_hint)\<close>.
  The import stops at the first exception.\<close>

type_synonym cmd = "string \<times> arg list \<times> string"

fun run :: "cmd list \<Rightarrow> ImpCommandBuilder \<Rightarrow> result" where
  "run [] self = Inr self"
| "run ((directive, args, name_hint) # rest) self =
     (case build_cmd directive args name_hint self of
        Inl e \<Rightarrow> Inl e
      | Inr self' \<Rightarrow> run rest self')"

subsection \<open>Finalization\<close>

text \<open>
  What the host is asked to create for one datablock, and the keyframe lists handed to
  \<^verbatim>\<open>set_animation_data\<close>, one per animation of the block.
\<close>

datatype created_object = Created_empty DatablockInfo | Created_mesh MeshObject

record FinalizedBlock =
  fb_object :: created_object
  fb_keyframes :: "KeyframeInfo list list"

fun apply_animations ::
  "IntermediateAnimation list \<Rightarrow> nat list \<Rightarrow> py_error + KeyframeInfo list list" where
  \<comment> \<open>\<^verbatim>\<open>for animation in intermediate_block.animations_to_apply\<close>\<close>
  "apply_animations store [] = Inr []"
| "apply_animations store (a # as) =
     (case apply_animation (store ! a) of
        Inl e \<Rightarrow> Inl e
      | Inr k \<Rightarrow> (case apply_animations store as of
                    Inl e \<Rightarrow> Inl e
                  | Inr ks \<Rightarrow> Inr (k # ks)))"

definition finalize_block ::
  "(MeshData \<Rightarrow> bool) \<Rightarrow> VTTable \<Rightarrow> IntermediateAnimation list \<Rightarrow> IntermediateDatablock
     \<Rightarrow> py_error + FinalizedBlock" where
  "finalize_block validate table store intermediate_block =
     (case parent_info (datablock_info intermediate_block) of
        None \<Rightarrow> Inl AttributeError
      | Some parent \<Rightarrow>
          (let db_info = (if parent = ''INTER_ROOT''
                          then (datablock_info intermediate_block)\<lparr>parent_info := None\<rparr>
                          else datablock_info intermediate_block);
               block = intermediate_block\<lparr>datablock_info := db_info\<rparr>
           in case (case datablock_type db_info of
                      EMPTY \<Rightarrow> Inr (Created_empty db_info)
                    | MESH \<Rightarrow> map_sum id Created_mesh (build_mesh validate block table)) of
                Inl e \<Rightarrow> Inl e
              | Inr ob \<Rightarrow>
                  (case apply_animations store (animations_to_apply block) of
                     Inl e \<Rightarrow> Inl e
                   | Inr ks \<Rightarrow> Inr \<lparr>fb_object = ob, fb_keyframes = ks\<rparr>)))"

fun finalize_loop ::
  "(MeshData \<Rightarrow> bool) \<Rightarrow> VTTable \<Rightarrow> IntermediateAnimation list \<Rightarrow> IntermediateDatablock list
     \<Rightarrow> FinalizedBlock list \<Rightarrow> py_error + FinalizedBlock list" where
  "finalize_loop validate table store [] made = Inr made"
| "finalize_loop validate table store (b # bs) made =
     (case finalize_block validate table store b of
        Inl e \<Rightarrow> Inl e
      | Inr fb \<Rightarrow> finalize_loop validate table store bs (made @ [fb]))"

record FinalizeResult =
  status :: "string set"
  objects :: "FinalizedBlock list"
  frame_current :: nat

definition finalize_intermediate_blocks ::
  "(MeshData \<Rightarrow> bool) \<Rightarrow> ImpCommandBuilder \<Rightarrow> py_error + FinalizeResult" where
  \<comment> \<open>the loop runs over \<^verbatim>\<open>self._blocks[1:]\<close>\<close>
  "finalize_intermediate_blocks validate self =
     (case finalize_loop validate (vt_table self) (anim_store self) (drop 1 (blocks self)) [] of
        Inl e \<Rightarrow> Inl e
      | Inr obs \<Rightarrow> Inr \<lparr>status = {''FINISHED''}, objects = obs, frame_current = 1\<rparr>)"

fun logged_by :: "FinalizedBlock \<Rightarrow> string list" where
  "logged_by fb = (case fb_object fb of Created_empty _ \<Rightarrow> [] | Created_mesh ob \<Rightarrow> ob_logged ob)"

definition logged :: "FinalizeResult \<Rightarrow> string list" where
  \<comment> \<open>everything \<^verbatim>\<open>logger.error\<close> received during finalization\<close>
  "logged r = concat (map logged_by (objects r))"

subsection \<open>Notions used to state the properties\<close>

definition recognized :: "string set" where
  \<comment> \<open>the directive names that \<^verbatim>\<open>build_cmd\<close> handles\<close>
  "recognized = {''VT'', ''IDX'', ''IDX10'', ''TRIS'', ''ANIM_begin'', ''ANIM_end'',
     ''ANIM_trans_begin'', ''ANIM_trans_key'', ''ANIM_trans_end'', ''ANIM_hide'', ''ANIM_show'',
     ''ANIM_rotate_begin'', ''ANIM_rotate_key'', ''ANIM_rotate_end'', ''ANIM_keyframe_loop'',
     ''ANIM_trans'', ''ANIM_rotate''}"

text \<open>
  The rotation the spec describes for sample \<open>i\<close>: the sum, over the axes of the rotation
  map, of the axis scaled by its \<open>i\<close>-th degree value, component by component.
\<close>

definition rotation_sum :: "(vec \<times> real list) list \<Rightarrow> nat \<Rightarrow> vec" where
  "rotation_sum rots i =
     (sum_list (map (\<lambda>(axis, degrees). fst axis * degrees ! i) rots),
      sum_list (map (\<lambda>(axis, degrees). fst (snd axis) * degrees ! i) rots),
      sum_list (map (\<lambda>(axis, degrees). snd (snd axis) * degrees ! i) rots))"

text \<open>
  \<open>sample_ok a j\<close>: the animation has a location (if it has any) and a degree value on
  every axis for sample \<open>j\<close>. \<open>samples_ok a\<close>: no populated list is shorter than the
  dataref's value sequence. \<open>expected_keyframe a i\<close> is the keyframe the spec describes for
  sample \<open>i\<close> (counted from 0).
\<close>

definition sample_ok :: "IntermediateAnimation \<Rightarrow> nat \<Rightarrow> bool" where
  "sample_ok a j \<longleftrightarrow>
     (locations a = [] \<or> j < length (locations a)) \<and>
     (\<forall>(axis, degrees) \<in> set (rotations a). j < length degrees)"

definition samples_ok :: "IntermediateAnimation \<Rightarrow> bool" where
  "samples_ok a \<longleftrightarrow>
     (locations a = [] \<or> length (dr_values (xp_dataref a)) \<le> length (locations a)) \<and>
     (\<forall>(axis, degrees) \<in> set (rotations a). length (dr_values (xp_dataref a)) \<le> length degrees)"

definition expected_keyframe :: "IntermediateAnimation \<Rightarrow> nat \<Rightarrow> KeyframeInfo" where
  "expected_keyframe a i =
     \<lparr>idx = i + 1,
      dataref_path = path (xp_dataref a),
      dataref_value = Some (dr_values (xp_dataref a) ! i),
      dataref_anim_type = anim_type (xp_dataref a),
      dataref_show_hide_v1 = None,
      dataref_show_hide_v2 = None,
      location = (if locations a = [] then None else Some (locations a ! i)),
      rotation = (if rotations a = [] then None else Some (rotation_sum (rotations a) i))\<rparr>"

text \<open>
  The host's answer to \<^verbatim>\<open>me.validate\<close>: nothing invalid found, or invalid geometry found.
\<close>

definition reports_valid :: "MeshData \<Rightarrow> bool" where
  "reports_valid md = False"

definition reports_invalid :: "MeshData \<Rightarrow> bool" where
  "reports_invalid md = True"

text \<open>Directive streams and animations used as concrete inputs.\<close>

definition trans_stream :: "cmd list" where
  "trans_stream =
     [(''ANIM_begin'', [], []),
      (''ANIM_trans_begin'', [AStr ''sim/y''], []),
      (''ANIM_trans_key'', [AFloat 0, AVec (0, 0, 0)], []),
      (''ANIM_trans_key'', [AFloat 1, AVec (0, 0, 1)], []),
      (''ANIM_trans_key'', [AFloat 2, AVec (0, 0, 4)], []),
      (''ANIM_trans_end'', [], []),
      (''ANIM_end'', [], [])]"

definition rotate_stream :: "cmd list" where
  "rotate_stream =
     [(''ANIM_begin'', [], []),
      (''ANIM_rotate_begin'', [AVec (0, -1, 0), AStr ''sim/r''], []),
      (''ANIM_rotate_key'', [AFloat 0, AFloat 10], []),
      (''ANIM_rotate_key'', [AFloat 1, AFloat 20], []),
      (''ANIM_rotate_end'', [], []),
      (''ANIM_end'', [], [])]"

definition mixed_stream :: "cmd list" where
  "mixed_stream =
     [(''ANIM_begin'', [], []),
      (''ANIM_rotate_begin'', [AVec (0, 1, 0), AStr ''sim/r''], []),
      (''ANIM_rotate_key'', [AFloat 0, AFloat 10], []),
      (''ANIM_trans_key'', [AFloat 1, AVec (1, 2, 3)], [])]"

text \<open>
  What the builder keeps true of every animation it makes: each driver value was appended
  together with one location or one degree value, so the driver values are as many as the
  locations and the degree values of all axes together; the axes of the rotation map are
  distinct and none of them has an empty degree list.
\<close>

definition degree_count :: "(vec \<times> real list) list \<Rightarrow> nat" where
  "degree_count rots = sum_list (map (\<lambda>r. length (snd r)) rots)"

definition counts_add_up :: "IntermediateAnimation \<Rightarrow> bool" where
  "counts_add_up a \<longleftrightarrow>
     length (dr_values (xp_dataref a)) = length (locations a) + degree_count (rotations a)
     \<and> distinct (map fst (rotations a))
     \<and> (\<forall>r \<in> set (rotations a). snd r \<noteq> [])"

definition store_ok :: "ImpCommandBuilder \<Rightarrow> bool" where
  "store_ok self \<longleftrightarrow> (\<forall>a \<in> set (anim_store self). counts_add_up a)"

definition show_stream :: "cmd list" where
  "show_stream = [(''ANIM_show'', [AFloat 0, AFloat 1, AStr ''sim/x''], [])]"

text \<open>The one keyframe of a show or hide animation, as the spec describes it.\<close>

definition single_keyframe :: "IntermediateDataref \<Rightarrow> KeyframeInfo" where
  "single_keyframe d =
     \<lparr>idx = 1, dataref_path = path d, dataref_value = None, dataref_anim_type = anim_type d,
      dataref_show_hide_v1 = Some (show_hide_v1 d), dataref_show_hide_v2 = Some (show_hide_v2 d),
      location = None, rotation = None\<rparr>"

text \<open>
  The spec's description of mesh building. \<open>first_seen xs\<close> keeps the first occurrence of
  every element of \<open>xs\<close>, in order; \<open>position u a\<close> is the place of \<open>a\<close> in \<open>u\<close>;
  \<open>valid_index n i\<close> says that \<open>i\<close> is an index Python accepts for a list of length \<open>n\<close>
  and \<open>vertex_at\<close> is the element it reads. \<open>compact_mesh\<close> is the mesh the spec
  describes: the vertices of the first-seen indices of the slice, and the triangles
  remapped to positions in that list, each reversed.
\<close>

definition first_seen :: "'a list \<Rightarrow> 'a list" where
  "first_seen xs = rev (remdups (rev xs))"

fun position :: "'a list \<Rightarrow> 'a \<Rightarrow> nat" where
  "position [] a = 0"
| "position (b # bs) a = (if a = b then 0 else Suc (position bs a))"

definition valid_index :: "nat \<Rightarrow> int \<Rightarrow> bool" where
  "valid_index n i \<longleftrightarrow> - int n \<le> i \<and> i < int n"

definition vertex_at :: "'a list \<Rightarrow> int \<Rightarrow> 'a" where
  "vertex_at table i = table ! nat (if i < 0 then i + int (length table) else i)"

definition mesh_idxes_of :: "IntermediateDatablock \<Rightarrow> VTTable \<Rightarrow> int list" where
  "mesh_idxes_of self table =
     py_slice (idxes table) (the (start_idx self)) (the (start_idx self) + the (count self))"

definition coords :: "VT \<Rightarrow> vec" where
  "coords v = (vt_x v, vt_y v, vt_z v)"

definition compact_mesh :: "IntermediateDatablock \<Rightarrow> VTTable \<Rightarrow> MeshData" where
  "compact_mesh self table =
     \<lparr>mesh_vertices = map (vertex_at (vertices table)) (first_seen (mesh_idxes_of self table)),
      mesh_faces = map (\<lambda>face. rev (map (position (first_seen (mesh_idxes_of self table))) face))
                       (chunk (mesh_idxes_of self table))\<rparr>"

text \<open>
  The spec's example: a table of eight distinct vertices whose index list holds the run
  \<open>2, 2, 5, 2, 5, 7\<close> from offset 3, and a mesh node for that slice.
\<close>

definition example_vertex :: "nat \<Rightarrow> VT" where
  "example_vertex k = \<lparr>vt_x = real k, vt_y = 0, vt_z = 0, vt_nx = 0, vt_ny = 0, vt_nz = 1,
     vt_s = 0, vt_t = real k\<rparr>"

definition example_table :: VTTable where
  "example_table = \<lparr>vertices = map example_vertex [0, 1, 2, 3, 4, 5, 6, 7],
     idxes = [0, 1, 3, 2, 2, 5, 2, 5, 7, 4]\<rparr>"

definition example_mesh :: IntermediateDatablock where
  "example_mesh =
     \<lparr>datablock_info = \<lparr>datablock_type = MESH, name = ''ImpMesh.000_1a2b'',
         parent_info = None, collection = ''plane''\<rparr>,
      start_idx = Some 3, count = Some 6, animations_to_apply = []\<rparr>"

text \<open>What \<^verbatim>\<open>build_mesh\<close> returns for that node when the host reports the mesh invalid.\<close>

definition example_invalid_object :: MeshObject where
  "example_invalid_object =
     \<lparr>ob_name = ''ImpMesh.000_1a2b'', ob_parent = None,
      ob_coords = [(2, 0, 0), (5, 0, 0), (7, 0, 0)],
      ob_faces = [[1, 0, 0], [2, 1, 0]],
      ob_normals = Map.empty, ob_uvs = Map.empty,
      ob_material = ''Material'',
      ob_logged = [''Mesh was not valid, check console for more'']\<rparr>"

text \<open>
  \<open>finalizable\<close>: finalization meets no exception. Every node after the root names a
  parent, every mesh slice addresses existing vertices, and every transform animation has
  a location and a degree value for each driver value. \<open>mesh_stream\<close> builds one triangle.
\<close>

definition block_ok :: "VTTable \<Rightarrow> IntermediateAnimation list \<Rightarrow> IntermediateDatablock \<Rightarrow> bool" where
  "block_ok table store b \<longleftrightarrow>
     parent_info (datablock_info b) \<noteq> None
     \<and> (datablock_type (datablock_info b) = MESH \<longrightarrow>
          start_idx b \<noteq> None \<and> count b \<noteq> None
          \<and> (\<forall>i \<in> set (mesh_idxes_of b table). valid_index (length (vertices table)) i))
     \<and> (\<forall>a \<in> set (animations_to_apply b).
          anim_type (xp_dataref (store ! a)) = ANIM_TYPE_TRANSFORM \<longrightarrow> samples_ok (store ! a))"

definition finalizable :: "ImpCommandBuilder \<Rightarrow> bool" where
  "finalizable self \<longleftrightarrow>
     (\<forall>b \<in> set (drop 1 (blocks self)). block_ok (vt_table self) (anim_store self) b)"

definition mesh_stream :: "cmd list" where
  "mesh_stream =
     [(''VT'', [AFloat 0, AFloat 0, AFloat 0, AFloat 0, AFloat 0, AFloat 1, AFloat 0, AFloat 0], []),
      (''VT'', [AFloat 1, AFloat 0, AFloat 0, AFloat 0, AFloat 0, AFloat 1, AFloat 1, AFloat 0], []),
      (''VT'', [AFloat 0, AFloat 1, AFloat 0, AFloat 0, AFloat 0, AFloat 1, AFloat 0, AFloat 1], []),
      (''IDX'', [AInt 0], []),
      (''IDX'', [AInt 1], []),
      (''IDX'', [AInt 2], []),
      (''TRIS'', [AInt 0, AInt 3], [])]"

text \<open>The animation on top of the context stack, read from the store.\<close>

definition open_animation :: "ImpCommandBuilder \<Rightarrow> IntermediateAnimation option" where
  "open_animation self = map_option (\<lambda>a. anim_store self ! a) (top_animation self)"

text \<open>
  \<open>nodes_ok\<close>: every node of the flat list has at most one animation, a mesh node and the
  root have none. \<open>busy_stream\<close> mixes the directive kinds and ends with a directive
  outside any bracket.
\<close>

definition nodes_ok :: "ImpCommandBuilder \<Rightarrow> bool" where
  "nodes_ok self \<longleftrightarrow>
     (\<forall>b \<in> set (blocks self).
        length (animations_to_apply b) \<le> 1
        \<and> (datablock_type (datablock_info b) = MESH \<longrightarrow> animations_to_apply b = []))
     \<and> animations_to_apply (root_intermediate_datablock self) = []
     \<and> blocks self \<noteq> []
     \<and> animations_to_apply (hd (blocks self)) = []"

definition busy_stream :: "cmd list" where
  "busy_stream =
     [(''ANIM_begin'', [], []),
      (''ANIM_rotate_begin'', [AVec (0, -1, 0), AStr ''sim/r''], []),
      (''ANIM_rotate_key'', [AFloat 0, AFloat 10], []),
      (''TRIS'', [AInt 0, AInt 3], ''wing''),
      (''ANIM_rotate'', [AVec (0, -1, 0), AFloat 0, AFloat 90, AFloat 0, AFloat 1, AStr ''sim/s''], []),
      (''ANIM_end'', [], []),
      (''ANIM_hide'', [AFloat 0, AFloat 1, AStr ''sim/h''], [])]"

text \<open>
  Brackets. \<open>opens_frame\<close> names the directives that call \<^verbatim>\<open>begin_new_frame\<close>. A stream
  is \<open>balanced\<close> when its \<^verbatim>\<open>ANIM_begin\<close> and \<^verbatim>\<open>ANIM_end\<close> directives pair up.
  \<open>own_frames 0 cs\<close> counts the frame-opening directives of \<open>cs\<close> that lie outside every
  bracket of \<open>cs\<close> itself, \<open>all_frames cs\<close> counts them all. \<open>frames\<close> projects a builder
  to its context stack, its open-count stack and its number of empty nodes; \<open>frame_pushed\<close>
  is the effect of one successful \<^verbatim>\<open>begin_new_frame\<close> on them.
\<close>

definition opens_frame :: "string \<Rightarrow> bool" where
  "opens_frame directive \<longleftrightarrow>
     directive \<in> {''ANIM_trans_begin'', ''ANIM_hide'', ''ANIM_show'', ''ANIM_rotate_begin'',
                  ''ANIM_trans'', ''ANIM_rotate''}"

inductive balanced :: "cmd list \<Rightarrow> bool" where
  balanced_Nil: "balanced []"
| balanced_Cons: "fst c \<noteq> ''ANIM_begin'' \<Longrightarrow> fst c \<noteq> ''ANIM_end'' \<Longrightarrow> balanced cs
     \<Longrightarrow> balanced (c # cs)"
| balanced_pair: "balanced cs \<Longrightarrow> balanced cs'
     \<Longrightarrow> balanced ((''ANIM_begin'', a, h) # cs @ (''ANIM_end'', a', h') # cs')"

fun own_frames :: "nat \<Rightarrow> cmd list \<Rightarrow> nat" where
  "own_frames depth [] = 0"
| "own_frames depth ((directive, args, name_hint) # rest) =
     (if directive = ''ANIM_begin'' then own_frames (Suc depth) rest
      else if directive = ''ANIM_end'' then own_frames (depth - 1) rest
      else (if opens_frame directive \<and> depth = 0 then 1 else 0) + own_frames depth rest)"

definition all_frames :: "cmd list \<Rightarrow> nat" where
  "all_frames cs = length (filter (\<lambda>c. opens_frame (fst c)) cs)"

definition nested_stream :: "cmd list" where
  "nested_stream =
     [(''ANIM_trans_begin'', [AStr ''sim/a''], []),
      (''ANIM_begin'', [], []),
      (''ANIM_trans_begin'', [AStr ''sim/b''], []),
      (''ANIM_end'', [], [])]"

definition frames :: "ImpCommandBuilder \<Rightarrow> AnimIntermediateStackEntry list \<times> nat list \<times> nat" where
  "frames s = (anim_intermediate_stack s, anim_count s, count_kind EMPTY (blocks s))"

definition frame_pushed :: "ImpCommandBuilder \<Rightarrow> ImpCommandBuilder \<Rightarrow> bool" where
  "frame_pushed s s' \<longleftrightarrow>
     (\<exists>e c cs. anim_count s = c # cs
        \<and> frames s' = (e # anim_intermediate_stack s, Suc c # cs, Suc (count_kind EMPTY (blocks s))))"

section \<open>Verified properties\<close>

subsection \<open>Unsupported directives\<close>

text \<open>
  C9. A directive whose name is outside the recognized set makes \<^verbatim>\<open>build_cmd\<close> fail
  with the unsupported-directive error (the source's failed assertion), and the failing
  call leaves the whole builder (node list, vertex and index table, context stack,
  open-count stack, rotation axis, animations) exactly as it was.
\<close>

theorem unsupported_directive_fails:
  "directive \<notin> recognized \<Longrightarrow>
     build_cmd directive args name_hint self = Inl (UnsupportedDirective directive, self)"
  unfolding recognized_def build_cmd_def by simp

theorem unsupported_directive_fails_witness:
  "''ATTR_hard'' \<notin> recognized \<and>
   build_cmd ''ATTR_hard'' [AStr ''concrete''] [] (init_builder ''plane'' ''1a2b'')
     = Inl (AssertionError ''ATTR_hard is not supported yet'', init_builder ''plane'' ''1a2b'')"
  using unsupported_directive_fails
    [of "''ATTR_hard''" "[AStr ''concrete'']" "[]" "init_builder ''plane'' ''1a2b''"]
  by (simp add: recognized_def UnsupportedDirective_def)

subsection \<open>Evaluation rules\<close>

lemmas eval_simps = run.simps build_cmd_def cmd_VT_def cmd_IDX_def cmd_IDX10_def cmd_TRIS_def
  cmd_ANIM_begin_def cmd_ANIM_end_def cmd_ANIM_trans_begin_def cmd_ANIM_trans_key_def
  cmd_ANIM_show_hide_def cmd_ANIM_rotate_begin_def cmd_ANIM_rotate_key_def cmd_ANIM_rotate_end_def
  cmd_ANIM_keyframe_loop_def cmd_ANIM_trans_def cmd_ANIM_rotate_def
  with_args_def bind_def with_top_animation_def with_top_dataref_def top_animation_def
  top_intermediate_datablock_def begin_new_frame_def init_builder_def new_root_def
  new_animation_def new_dataref_def transform_dataref_def rotations_append_def
  vt_args_def idx_args_def idx10_args_def tris_args_def path_args_def trans_key_args_def
  show_hide_args_def rotate_begin_args_def rotate_key_args_def loop_args_def trans_args_def
  rotate_args_def next_empty_name_def next_object_name_def count_kind_def pad3_def dec_str.simps
  state_of_def vabs_def ANIM_TYPE_TRANSFORM_def ANIM_TYPE_SHOW_def ANIM_TYPE_HIDE_def

lemmas fin_simps = finalize_intermediate_blocks_def finalize_block_def apply_animation_def
  transform_keyframe_def recompose_rotation_def vadd_def vscale_def

lemma state_of_simps: "state_of (Inl (e, s)) = s" "state_of (Inr s) = s"
  by (simp_all add: state_of_def)

subsection \<open>Keyframe generation\<close>

lemma recompose_loop_ok:
  "\<forall>(axis, degrees) \<in> set rots. i < length degrees \<Longrightarrow>
     recompose_loop rots i tot = Inr (vadd tot (rotation_sum rots i))"
proof (induction rots arbitrary: tot)
  case Nil
  then show ?case by (cases tot) (simp add: rotation_sum_def vadd_def)
next
  case (Cons r rots)
  obtain axis degrees where r: "r = (axis, degrees)" by (cases r)
  obtain ax ay az where axis: "axis = (ax, ay, az)" by (cases axis) auto
  obtain tx ty tz where tot: "tot = (tx, ty, tz)" by (cases tot) auto
  from Cons.prems have "i < length degrees" and rest: "\<forall>(axis, degrees) \<in> set rots. i < length degrees"
    by (auto simp: r)
  then show ?case
    using Cons.IH [OF rest]
    by (simp add: r axis tot rotation_sum_def vadd_def vscale_def add.assoc)
qed

lemma recompose_loop_fail:
  "\<not> (\<forall>(axis, degrees) \<in> set rots. i < length degrees) \<Longrightarrow>
     recompose_loop rots i tot = Inl IndexError"
  by (induction rots i tot rule: recompose_loop.induct) auto

lemma transform_keyframe_eq:
  "transform_keyframe a f j v =
     (if sample_ok a j
      then Inr ((expected_keyframe a j)\<lparr>idx := f, dataref_value := Some v\<rparr>)
      else Inl IndexError)"
proof (cases "\<forall>(axis, degrees) \<in> set (rotations a). j < length degrees")
  case True
  then show ?thesis
    using recompose_loop_ok [OF True, of "(0, 0, 0)"]
    by (cases "rotation_sum (rotations a) j")
      (auto simp: transform_keyframe_def sample_ok_def expected_keyframe_def
        recompose_rotation_def vadd_def)
next
  case False
  then have "rotations a \<noteq> []" by auto
  with False show ?thesis
    using recompose_loop_fail [OF False, of "(0, 0, 0)"]
    by (auto simp: transform_keyframe_def sample_ok_def recompose_rotation_def)
qed

lemma keyframe_loop_eq:
  "keyframe_loop a f i vs acc =
     (if \<forall>k < length vs. sample_ok a (i + k)
      then Inr (acc @ map (\<lambda>k. (expected_keyframe a (i + k))\<lparr>idx := f + k, dataref_value := Some (vs ! k)\<rparr>)
                        [0..<length vs])
      else Inl IndexError)"
proof (induction vs arbitrary: f i acc)
  case Nil
  then show ?case by simp
next
  case (Cons v vs)
  have all_Suc: "(\<forall>k < Suc (length vs). sample_ok a (i + k)) \<longleftrightarrow>
      sample_ok a i \<and> (\<forall>k < length vs. sample_ok a (Suc i + k))"
    by (auto simp: less_Suc_eq_0_disj)
  have shift: "map (\<lambda>k. (expected_keyframe a (i + k))\<lparr>idx := f + k, dataref_value := Some ((v # vs) ! k)\<rparr>)
                 [0..<Suc (length vs)]
      = (expected_keyframe a i)\<lparr>idx := f, dataref_value := Some v\<rparr>
        # map (\<lambda>k. (expected_keyframe a (Suc i + k))\<lparr>idx := Suc f + k, dataref_value := Some (vs ! k)\<rparr>)
            [0..<length vs]"
    by (simp add: upt_conv_Cons map_Suc_upt [symmetric] del: upt_Suc)
  show ?case
    unfolding keyframe_loop.simps transform_keyframe_eq
    by (simp only: Cons.IH all_Suc shift length_Cons) (simp)
qed

lemma samples_ok_iff:
  "samples_ok a \<longleftrightarrow> (\<forall>k < length (dr_values (xp_dataref a)). sample_ok a k)"
proof (cases "dr_values (xp_dataref a) = []")
  case True
  then show ?thesis by (auto simp: samples_ok_def sample_ok_def)
next
  case False
  then have pos: "length (dr_values (xp_dataref a)) - 1 < length (dr_values (xp_dataref a))"
    by simp
  show ?thesis
  proof
    assume "samples_ok a"
    then show "\<forall>k < length (dr_values (xp_dataref a)). sample_ok a k"
      by (fastforce simp: samples_ok_def sample_ok_def)
  next
    assume "\<forall>k < length (dr_values (xp_dataref a)). sample_ok a k"
    then have "sample_ok a (length (dr_values (xp_dataref a)) - 1)"
      using pos by blast
    then show "samples_ok a"
      using pos by (fastforce simp: samples_ok_def sample_ok_def)
  qed
qed

lemma apply_animation_transform:
  "anim_type (xp_dataref a) = ANIM_TYPE_TRANSFORM \<Longrightarrow>
     apply_animation a =
       (if samples_ok a
        then Inr (map (expected_keyframe a) [0..<length (dr_values (xp_dataref a))])
        else Inl IndexError)"
  by (simp add: apply_animation_def keyframe_loop_eq samples_ok_iff expected_keyframe_def)

text \<open>
  The builder's animations. One directive may mutate the top animation several times;
  the mutations of one directive are fused into one before the count is compared.
\<close>

lemma rotations_append_keys:
  "map fst (rotations_append k d rots) = (if k \<in> fst ` set rots then map fst rots else map fst rots @ [k])"
  by (auto simp: rotations_append_def split: prod.splits)

lemma rotations_append_count_present:
  "distinct (map fst rots) \<Longrightarrow> k \<in> fst ` set rots \<Longrightarrow>
     degree_count (map (\<lambda>(k', ds). if k' = k then (k', ds @ [d]) else (k', ds)) rots)
       = Suc (degree_count rots)"
proof (induction rots)
  case Nil
  then show ?case by simp
next
  case (Cons r rots)
  obtain k' ds where r: "r = (k', ds)" by (cases r)
  show ?case
  proof (cases "k' = k")
    case True
    with Cons.prems have "k \<notin> fst ` set rots" by (auto simp: r)
    then have "map (\<lambda>(k', ds). if k' = k then (k', ds @ [d]) else (k', ds)) rots = rots"
      by (induction rots) (auto split: prod.splits)
    with True show ?thesis by (simp add: r degree_count_def)
  next
    case False
    with Cons.prems have "distinct (map fst rots)" "k \<in> fst ` set rots" by (auto simp: r)
    from Cons.IH [OF this] False show ?thesis by (simp add: r degree_count_def)
  qed
qed

lemma rotations_append_count:
  "distinct (map fst rots) \<Longrightarrow> degree_count (rotations_append k d rots) = Suc (degree_count rots)"
proof (cases "k \<in> fst ` set rots")
  case True
  assume "distinct (map fst rots)"
  from rotations_append_count_present [OF this True] True show ?thesis
    by (simp add: rotations_append_def)
next
  case False
  then show ?thesis by (simp add: rotations_append_def degree_count_def)
qed

lemma rotations_append_nonempty:
  "\<forall>r \<in> set rots. snd r \<noteq> [] \<Longrightarrow> \<forall>r \<in> set (rotations_append k d rots). snd r \<noteq> []"
  by (auto simp: rotations_append_def split: if_splits)

lemma counts_add_up_rotate_key:
  "counts_add_up a \<Longrightarrow>
     counts_add_up (a\<lparr>rotations := rotations_append k d (rotations a),
                     xp_dataref := (xp_dataref a)\<lparr>dr_values := dr_values (xp_dataref a) @ [v]\<rparr>\<rparr>)"
  using rotations_append_nonempty [of "rotations a" k d]
  by (auto simp: counts_add_up_def rotations_append_count rotations_append_keys)

lemma counts_add_up_new: "counts_add_up new_animation"
  by (simp add: counts_add_up_def new_animation_def new_dataref_def degree_count_def)

lemma list_update_twice:
  "xs[a := g ((xs[a := y]) ! a)] = xs[a := g y]"
  by (cases "a < length xs") (simp_all add: list_update_beyond not_less)

lemma with_top_animation_fuse:
  "bind (with_top_animation f s) (with_top_animation g) = with_top_animation (\<lambda>a. g (f a)) s"
  by (simp add: with_top_animation_def bind_def top_animation_def list_update_twice
      split: list.splits)

lemma store_ok_with_top_animation:
  "(\<And>a. counts_add_up a \<Longrightarrow> counts_add_up (f a)) \<Longrightarrow> store_ok s \<Longrightarrow>
     store_ok (state_of (with_top_animation f s))"
proof -
  assume f: "\<And>a. counts_add_up a \<Longrightarrow> counts_add_up (f a)" and ok: "store_ok s"
  show ?thesis
  proof (cases "top_animation s")
    case None
    with ok show ?thesis by (simp add: with_top_animation_def state_of_simps)
  next
    case (Some a)
    show ?thesis
    proof (cases "a < length (anim_store s)")
      case True
      then have "anim_store s ! a \<in> set (anim_store s)" by simp
      with ok f have "counts_add_up (f (anim_store s ! a))" by (simp add: store_ok_def)
      with ok show ?thesis
        using set_update_subset_insert [of "anim_store s" a "f (anim_store s ! a)"]
        by (auto simp: with_top_animation_def Some state_of_simps store_ok_def)
    next
      case False
      with ok show ?thesis
        by (simp add: with_top_animation_def Some state_of_simps store_ok_def
            list_update_beyond not_less)
    qed
  qed
qed

lemma store_ok_frame:
  "store_ok s \<Longrightarrow> counts_add_up (f new_animation) \<Longrightarrow>
     store_ok (state_of (bind (begin_new_frame s) (with_top_animation f)))"
  by (cases "anim_count s")
     (auto simp: begin_new_frame_def bind_def with_top_animation_def top_animation_def Let_def
        state_of_simps store_ok_def counts_add_up_new)

lemma store_ok_last_axis: "store_ok (s\<lparr>last_axis := ax\<rparr>) = store_ok s"
  by (simp add: store_ok_def)


lemma store_ok_with_args:
  "store_ok s \<Longrightarrow> (\<And>a. store_ok (state_of (f a))) \<Longrightarrow> store_ok (state_of (with_args d s f))"
  by (cases d) (auto simp: with_args_def state_of_simps)

lemma store_ok_pop_contexts:
  "store_ok s \<Longrightarrow> store_ok (state_of (pop_contexts n s))"
proof (induction n arbitrary: s)
  case 0
  then show ?case by (simp add: state_of_simps)
next
  case (Suc n)
  show ?case
  proof (cases "anim_intermediate_stack s")
    case Nil
    with Suc.prems show ?thesis by (simp add: state_of_simps)
  next
    case (Cons e rest)
    have "store_ok (s\<lparr>anim_intermediate_stack := rest\<rparr>)"
      using Suc.prems by (simp add: store_ok_def)
    from Suc.IH [OF this] Cons show ?thesis by simp
  qed
qed

lemma store_ok_plain:
  assumes "store_ok s"
  shows "store_ok (state_of (cmd_VT args s))"
    and "store_ok (state_of (cmd_IDX args s))"
    and "store_ok (state_of (cmd_IDX10 args s))"
    and "store_ok (state_of (cmd_TRIS args h s))"
    and "store_ok (state_of (cmd_ANIM_begin s))"
    and "store_ok (state_of (cmd_ANIM_rotate_end s))"
    and "store_ok (state_of (Inr s))"
  using assms
  by (auto simp: cmd_VT_def cmd_IDX_def cmd_IDX10_def cmd_TRIS_def cmd_ANIM_begin_def
      cmd_ANIM_rotate_end_def with_args_def state_of_simps store_ok_def Let_def
      split: sum.splits prod.splits)

lemma store_ok_ANIM_end:
  "store_ok s \<Longrightarrow> store_ok (state_of (cmd_ANIM_end s))"
proof (cases "anim_count s")
  case Nil
  assume "store_ok s"
  with Nil show ?thesis by (simp add: cmd_ANIM_end_def state_of_simps)
next
  case (Cons c cs)
  assume "store_ok s"
  then have "store_ok (s\<lparr>anim_count := cs\<rparr>)" by (simp add: store_ok_def)
  then show ?thesis by (simp add: cmd_ANIM_end_def Cons store_ok_pop_contexts)
qed

lemma store_ok_openers:
  assumes "store_ok s"
  shows "store_ok (state_of (cmd_ANIM_trans_begin args s))"
    and "store_ok (state_of (cmd_ANIM_show_hide d args s))"
    and "store_ok (state_of (cmd_ANIM_rotate_begin args s))"
    and "store_ok (state_of (cmd_ANIM_trans args s))"
    and "store_ok (state_of (cmd_ANIM_rotate args s))"
  unfolding cmd_ANIM_trans_begin_def cmd_ANIM_show_hide_def cmd_ANIM_rotate_begin_def
    cmd_ANIM_trans_def cmd_ANIM_rotate_def with_top_dataref_def with_top_animation_fuse
  using assms
  by (auto intro!: store_ok_with_args store_ok_frame
      simp: store_ok_last_axis counts_add_up_def new_animation_def new_dataref_def
        transform_dataref_def degree_count_def rotations_append_def
      split: prod.splits)

lemma store_ok_keys:
  assumes "store_ok s"
  shows "store_ok (state_of (cmd_ANIM_trans_key args s))"
    and "store_ok (state_of (cmd_ANIM_keyframe_loop args s))"
  unfolding cmd_ANIM_trans_key_def cmd_ANIM_keyframe_loop_def with_top_dataref_def
    with_top_animation_fuse
  using assms
  by (auto intro!: store_ok_with_args store_ok_with_top_animation
      simp: counts_add_up_def split: prod.splits)

lemma store_ok_rotate_key:
  assumes "store_ok s"
  shows "store_ok (state_of (cmd_ANIM_rotate_key args s))"
  unfolding cmd_ANIM_rotate_key_def with_top_dataref_def with_top_animation_fuse
proof (rule store_ok_with_args [OF assms])
  fix a :: "real \<times> real"
  obtain v d where a: "a = (v, d)" by (cases a)
  have key: "store_ok (state_of (with_top_animation
      (\<lambda>a. a\<lparr>rotations := rotations_append axis d (rotations a)\<rparr>
         \<lparr>xp_dataref := (xp_dataref (a\<lparr>rotations := rotations_append axis d (rotations a)\<rparr>))
            \<lparr>dr_values := dr_values (xp_dataref (a\<lparr>rotations := rotations_append axis d (rotations a)\<rparr>)) @ [v]\<rparr>\<rparr>) s))"
    for axis
    using counts_add_up_rotate_key [where k = axis and d = d and v = v]
    by (intro store_ok_with_top_animation assms) simp
  show "store_ok (state_of (case a of (v, degrees) \<Rightarrow>
      case top_animation s of
        None \<Rightarrow> Inl (AttributeError, s)
      | Some _ \<Rightarrow>
         (case last_axis s of
            None \<Rightarrow> Inl (AttributeError, s)
          | Some axis \<Rightarrow>
              with_top_animation
                (\<lambda>a. a\<lparr>rotations := rotations_append axis degrees (rotations a)\<rparr>
                   \<lparr>xp_dataref := (xp_dataref (a\<lparr>rotations := rotations_append axis degrees (rotations a)\<rparr>))
                      \<lparr>dr_values := dr_values (xp_dataref (a\<lparr>rotations := rotations_append axis degrees (rotations a)\<rparr>)) @ [v]\<rparr>\<rparr>) s)))"
    using assms key
    by (cases "top_animation s"; cases "last_axis s") (simp_all add: a state_of_simps)
qed

lemma store_ok_build_cmd:
  "store_ok s \<Longrightarrow> store_ok (state_of (build_cmd directive args h s))"
  unfolding build_cmd_def
  by (simp add: store_ok_plain store_ok_ANIM_end store_ok_openers store_ok_keys store_ok_rotate_key)
     (simp add: state_of_simps)

lemma store_ok_run:
  "store_ok s \<Longrightarrow> store_ok (state_of (run cs s))"
proof (induction cs arbitrary: s)
  case Nil
  then show ?case by (simp add: state_of_simps)
next
  case (Cons c cs)
  obtain directive args h where c: "c = (directive, args, h)" by (cases c)
  show ?case
  proof (cases "build_cmd directive args h s")
    case (Inl e)
    with store_ok_build_cmd [OF Cons.prems, of directive args h] show ?thesis
      by (simp add: c state_of_def)
  next
    case (Inr s')
    with store_ok_build_cmd [OF Cons.prems, of directive args h] have "store_ok s'"
      by (simp add: state_of_simps)
    from Cons.IH [OF this] Inr show ?thesis by (simp add: c)
  qed
qed

lemma store_ok_init: "store_ok (init_builder stem tag)"
  by (simp add: store_ok_def init_builder_def)

lemma builder_made_counts:
  "a \<in> set (anim_store (state_of (run cs (init_builder stem tag)))) \<Longrightarrow> counts_add_up a"
  using store_ok_run [OF store_ok_init, of cs stem tag] by (simp add: store_ok_def)

lemma degree_count_member: "r \<in> set rots \<Longrightarrow> length (snd r) \<le> degree_count rots"
  unfolding degree_count_def by (induction rots) auto

lemma degree_count_two:
  "length (snd r1) + length (snd r2) \<le> degree_count (r1 # r2 # rots)"
  by (simp add: degree_count_def)

lemma builder_made_shape:
  assumes "counts_add_up b" and "samples_ok b"
  shows "rotations b = [] \<or> (locations b = [] \<and> length (rotations b) = 1)"
proof (cases "locations b = []")
  case False
  with assms have zero: "degree_count (rotations b) = 0"
    by (simp add: counts_add_up_def samples_ok_def)
  have "rotations b = []"
  proof (rule ccontr)
    assume "rotations b \<noteq> []"
    then obtain r where r: "r \<in> set (rotations b)" by (cases "rotations b") auto
    with assms(1) have "snd r \<noteq> []" by (simp add: counts_add_up_def)
    with degree_count_member [OF r] zero show False by simp
  qed
  then show ?thesis by simp
next
  case True
  show ?thesis
  proof (cases "rotations b")
    case Nil
    then show ?thesis by simp
  next
    case (Cons r1 rest)
    have "rest = []"
    proof (rule ccontr)
      assume "rest \<noteq> []"
      then obtain r2 rest' where rest: "rest = r2 # rest'" by (cases rest) auto
      from assms(1) have n: "length (dr_values (xp_dataref b)) = degree_count (r1 # r2 # rest')"
        and ne: "snd r2 \<noteq> []"
        by (simp_all add: counts_add_up_def True Cons rest)
      from assms(2) have "length (dr_values (xp_dataref b)) \<le> length (snd r1)"
        by (auto simp: samples_ok_def Cons)
      moreover from ne have "0 < length (snd r2)" by simp
      ultimately show False
        using n degree_count_two [of r1 r2 rest'] by linarith
    qed
    with True Cons show ?thesis by simp
  qed
qed

lemma trans_stream_animation:
  "anim_store (state_of (run trans_stream (init_builder ''plane'' ''1a2b'')))
     = [\<lparr>locations = [(0, 0, 0), (0, 0, 1), (0, 0, 4)], rotations = [],
         xp_dataref = (transform_dataref ''sim/y'')\<lparr>dr_values := [0, 1, 2]\<rparr>\<rparr>]"
  by (simp add: trans_stream_def eval_simps)

lemma rotate_stream_animation:
  "anim_store (state_of (run rotate_stream (init_builder ''plane'' ''1a2b'')))
     = [\<lparr>locations = [], rotations = [((0, 1, 0), [10, 20])],
         xp_dataref = (transform_dataref ''sim/r'')\<lparr>dr_values := [0, 1]\<rparr>\<rparr>]"
  by (simp add: rotate_stream_def eval_simps)

lemma mixed_stream_animation:
  "anim_store (state_of (run mixed_stream (init_builder ''plane'' ''1a2b'')))
     = [\<lparr>locations = [(1, 2, 3)], rotations = [((0, 1, 0), [10])],
         xp_dataref = (transform_dataref ''sim/r'')\<lparr>dr_values := [0, 1]\<rparr>\<rparr>]"
  by (simp add: mixed_stream_def eval_simps)

text \<open>
  C2, as stated, fails: not every transform-kind animation with \<open>N\<close> driver values yields
  \<open>N\<close> keyframes. The animation that \<open>mixed_stream\<close> builds is of transform kind and
  holds two driver values, one location and one degree value; \<^verbatim>\<open>apply_animation\<close> raises
  an index error at \<^verbatim>\<open>self.locations[value_idx]\<close> for the second value and hands no
  keyframe to the host.
\<close>

theorem mixed_animation_has_no_keyframes:
  "anim_type (xp_dataref (anim_store (state_of (run mixed_stream (init_builder ''plane'' ''1a2b''))) ! 0))
     = ANIM_TYPE_TRANSFORM
   \<and> length (dr_values (xp_dataref
         (anim_store (state_of (run mixed_stream (init_builder ''plane'' ''1a2b''))) ! 0))) = 2
   \<and> apply_animation (anim_store (state_of (run mixed_stream (init_builder ''plane'' ''1a2b''))) ! 0)
       = Inl IndexError"
  by (simp add: mixed_stream_def eval_simps fin_simps)

text \<open>
  C2, amended. For a transform-kind animation whose dataref holds \<open>N\<close> driver values and
  that has a location (when it has any) and a degree value on every axis for each of
  them (\<open>samples_ok\<close>), \<^verbatim>\<open>apply_animation\<close> emits exactly \<open>N\<close> keyframes, at the sample
  indices \<open>1..N\<close> in order; the \<open>i\<close>-th one carries the \<open>i\<close>-th driver value, the \<open>i\<close>-th
  location when the locations list is non-empty, and, when the rotation map is non-empty,
  the sum over all its axes of the axis scaled by its \<open>i\<close>-th degree value. An animation
  made by the builder meets the condition only with locations alone or with one rotation
  axis alone, so that its rotation is that axis scaled by the degree value.
\<close>

theorem transform_keyframes:
  assumes "anim_type (xp_dataref a) = ANIM_TYPE_TRANSFORM"
    and "samples_ok a"
  shows "(\<exists>kfs. apply_animation a = Inr kfs
       \<and> length kfs = length (dr_values (xp_dataref a))
       \<and> map idx kfs = [1..<length (dr_values (xp_dataref a)) + 1]
       \<and> (\<forall>i < length (dr_values (xp_dataref a)).
             dataref_value (kfs ! i) = Some (dr_values (xp_dataref a) ! i)
           \<and> location (kfs ! i) = (if locations a = [] then None else Some (locations a ! i))
           \<and> rotation (kfs ! i) =
                 (if rotations a = [] then None else Some (rotation_sum (rotations a) i))))
     \<and> (a \<in> set (anim_store (state_of (run cs (init_builder stem tag)))) \<longrightarrow>
          rotations a = [] \<or> (locations a = [] \<and> length (rotations a) = 1))"
proof -
  let ?n = "length (dr_values (xp_dataref a))"
  let ?kfs = "map (expected_keyframe a) [0..<?n]"
  have run: "apply_animation a = Inr ?kfs"
    using assms by (simp add: apply_animation_transform)
  have "map idx ?kfs = map Suc [0..<?n]"
    by (simp add: expected_keyframe_def)
  also have "\<dots> = [1..<?n + 1]"
    by (simp add: map_Suc_upt del: upt_Suc)
  finally have frames: "map idx ?kfs = [1..<?n + 1]" .
  have each: "\<forall>i < ?n. dataref_value (?kfs ! i) = Some (dr_values (xp_dataref a) ! i)
         \<and> location (?kfs ! i) = (if locations a = [] then None else Some (locations a ! i))
         \<and> rotation (?kfs ! i) =
               (if rotations a = [] then None else Some (rotation_sum (rotations a) i))"
    by (simp add: expected_keyframe_def)
  have made: "a \<in> set (anim_store (state_of (run cs (init_builder stem tag)))) \<longrightarrow>
      rotations a = [] \<or> (locations a = [] \<and> length (rotations a) = 1)"
    using builder_made_shape [OF builder_made_counts assms(2)] by blast
  from run frames each have "\<exists>kfs. apply_animation a = Inr kfs
       \<and> length kfs = ?n
       \<and> map idx kfs = [1..<?n + 1]
       \<and> (\<forall>i < ?n.
             dataref_value (kfs ! i) = Some (dr_values (xp_dataref a) ! i)
           \<and> location (kfs ! i) = (if locations a = [] then None else Some (locations a ! i))
           \<and> rotation (kfs ! i) =
                 (if rotations a = [] then None else Some (rotation_sum (rotations a) i)))"
    by simp
  with made show ?thesis by blast
qed

theorem transform_keyframes_witness:
  "anim_type (xp_dataref (anim_store (state_of (run trans_stream (init_builder ''plane'' ''1a2b''))) ! 0))
     = ANIM_TYPE_TRANSFORM
   \<and> samples_ok (anim_store (state_of (run trans_stream (init_builder ''plane'' ''1a2b''))) ! 0)
   \<and> (\<exists>kfs. apply_animation (anim_store (state_of (run trans_stream (init_builder ''plane'' ''1a2b''))) ! 0)
              = Inr kfs
          \<and> length kfs = 3
          \<and> map idx kfs = [1, 2, 3]
          \<and> map dataref_value kfs = [Some 0, Some 1, Some 2]
          \<and> map location kfs = [Some (0, 0, 0), Some (0, 0, 1), Some (0, 0, 4)]
          \<and> map rotation kfs = [None, None, None])
   \<and> anim_type (xp_dataref (anim_store (state_of (run rotate_stream (init_builder ''plane'' ''1a2b''))) ! 0))
     = ANIM_TYPE_TRANSFORM
   \<and> samples_ok (anim_store (state_of (run rotate_stream (init_builder ''plane'' ''1a2b''))) ! 0)
   \<and> (\<exists>kfs. apply_animation (anim_store (state_of (run rotate_stream (init_builder ''plane'' ''1a2b''))) ! 0)
              = Inr kfs
          \<and> length kfs = 2
          \<and> map idx kfs = [1, 2]
          \<and> map dataref_value kfs = [Some 0, Some 1]
          \<and> map location kfs = [None, None]
          \<and> map rotation kfs = [Some (0, 10, 0), Some (0, 20, 0)])
   \<and> locations (anim_store (state_of (run rotate_stream (init_builder ''plane'' ''1a2b''))) ! 0) = []
   \<and> length (rotations (anim_store (state_of (run rotate_stream (init_builder ''plane'' ''1a2b''))) ! 0)) = 1"
proof -
  let ?a = "anim_store (state_of (run trans_stream (init_builder ''plane'' ''1a2b''))) ! 0"
  let ?b = "anim_store (state_of (run rotate_stream (init_builder ''plane'' ''1a2b''))) ! 0"
  have a: "?a = \<lparr>locations = [(0, 0, 0), (0, 0, 1), (0, 0, 4)], rotations = [],
      xp_dataref = (transform_dataref ''sim/y'')\<lparr>dr_values := [0, 1, 2]\<rparr>\<rparr>"
    by (simp add: trans_stream_animation)
  have b: "?b = \<lparr>locations = [], rotations = [((0, 1, 0), [10, 20])],
      xp_dataref = (transform_dataref ''sim/r'')\<lparr>dr_values := [0, 1]\<rparr>\<rparr>"
    by (simp add: rotate_stream_animation)
  have h1: "anim_type (xp_dataref ?a) = ANIM_TYPE_TRANSFORM"
    by (simp add: a transform_dataref_def)
  have h2: "samples_ok ?a"
    by (simp add: a samples_ok_def)
  have g1: "anim_type (xp_dataref ?b) = ANIM_TYPE_TRANSFORM"
    by (simp add: b transform_dataref_def)
  have g2: "samples_ok ?b"
    by (simp add: b samples_ok_def)
  have made: "?b \<in> set (anim_store (state_of (run rotate_stream (init_builder ''plane'' ''1a2b''))))"
    by (simp add: rotate_stream_animation)
  from transform_keyframes [OF h1 h2] obtain kfs where
    k: "apply_animation ?a = Inr kfs" and kn: "length kfs = length (dr_values (xp_dataref ?a))"
    by blast
  from transform_keyframes [OF g1 g2, of rotate_stream "''plane''" "''1a2b''"] made obtain kfs' where
    k': "apply_animation ?b = Inr kfs'"
    and kn': "length kfs' = length (dr_values (xp_dataref ?b))"
    and shape: "rotations ?b = [] \<or> (locations ?b = [] \<and> length (rotations ?b) = 1)"
    by blast
  have "length kfs = 3 \<and> map idx kfs = [1, 2, 3]
      \<and> map dataref_value kfs = [Some 0, Some 1, Some 2]
      \<and> map location kfs = [Some (0, 0, 0), Some (0, 0, 1), Some (0, 0, 4)]
      \<and> map rotation kfs = [None, None, None]"
    using k kn unfolding a
    by (auto simp: fin_simps transform_dataref_def)
  moreover have "length kfs' = 2 \<and> map idx kfs' = [1, 2]
      \<and> map dataref_value kfs' = [Some 0, Some 1]
      \<and> map location kfs' = [None, None]
      \<and> map rotation kfs' = [Some (0, 10, 0), Some (0, 20, 0)]"
    using k' kn' unfolding b
    by (auto simp: fin_simps transform_dataref_def)
  moreover have "locations ?b = [] \<and> length (rotations ?b) = 1"
    using shape by (simp add: b)
  ultimately show ?thesis using h1 h2 g1 g2 k k' by simp
qed

text \<open>
  C6, as stated, fails in its first half: nothing keeps the lengths equal. After
  \<open>mixed_stream\<close> the builder holds a transform animation with both lists populated, one
  location and one degree value, against two driver values.
\<close>

theorem sample_count_not_enforced:
  "locations (anim_store (state_of (run mixed_stream (init_builder ''plane'' ''1a2b''))) ! 0) = [(1, 2, 3)]
   \<and> rotations (anim_store (state_of (run mixed_stream (init_builder ''plane'' ''1a2b''))) ! 0)
       = [((0, 1, 0), [10])]
   \<and> dr_values (xp_dataref (anim_store (state_of (run mixed_stream (init_builder ''plane'' ''1a2b''))) ! 0))
       = [0, 1]
   \<and> anim_type (xp_dataref (anim_store (state_of (run mixed_stream (init_builder ''plane'' ''1a2b''))) ! 0))
       = ANIM_TYPE_TRANSFORM"
  by (simp add: mixed_stream_animation transform_dataref_def)

text \<open>
  C6, amended. In every animation the builder makes, the driver values are as many as the
  locations and the degree values together; so when both the locations and the rotation
  map are populated, each of their lists is shorter than the value sequence, and keyframe
  generation for such a transform animation fails with an index error. It never truncates:
  when keyframe generation returns for a transform animation of the builder, every
  populated list has exactly as many entries as the value sequence.
\<close>

theorem sample_count_failure:
  assumes "a \<in> set (anim_store (state_of (run cs (init_builder stem tag))))"
  shows "length (dr_values (xp_dataref a)) = length (locations a) + degree_count (rotations a)
     \<and> (locations a \<noteq> [] \<and> rotations a \<noteq> [] \<longrightarrow>
            length (locations a) < length (dr_values (xp_dataref a))
          \<and> (\<forall>r \<in> set (rotations a). length (snd r) < length (dr_values (xp_dataref a)))
          \<and> (anim_type (xp_dataref a) = ANIM_TYPE_TRANSFORM \<longrightarrow>
                apply_animation a = Inl IndexError))
     \<and> (anim_type (xp_dataref a) = ANIM_TYPE_TRANSFORM \<longrightarrow>
          (\<forall>kfs. apply_animation a = Inr kfs \<longrightarrow>
             length kfs = length (dr_values (xp_dataref a))
           \<and> (locations a = [] \<or> length (locations a) = length (dr_values (xp_dataref a)))
           \<and> (\<forall>r \<in> set (rotations a). length (snd r) = length (dr_values (xp_dataref a)))))"
proof -
  let ?n = "length (dr_values (xp_dataref a))"
  from builder_made_counts [OF assms] have bal: "counts_add_up a" .
  then have n: "?n = length (locations a) + degree_count (rotations a)"
    by (simp add: counts_add_up_def)
  have both: "length (locations a) < ?n
      \<and> (\<forall>r \<in> set (rotations a). length (snd r) < ?n)
      \<and> (anim_type (xp_dataref a) = ANIM_TYPE_TRANSFORM \<longrightarrow> apply_animation a = Inl IndexError)"
    if l: "locations a \<noteq> []" and r: "rotations a \<noteq> []"
  proof -
    from r obtain r0 where r0: "r0 \<in> set (rotations a)" by (cases "rotations a") auto
    with bal have "snd r0 \<noteq> []" by (simp add: counts_add_up_def)
    with degree_count_member [OF r0] have d: "0 < degree_count (rotations a)" by (cases "snd r0") auto
    with n have short: "length (locations a) < ?n" by simp
    from l have "0 < length (locations a)" by simp
    with n degree_count_member have all: "\<forall>r \<in> set (rotations a). length (snd r) < ?n"
      by (fastforce simp: le_less_trans)
    from short l have "\<not> samples_ok a" by (simp add: samples_ok_def)
    with short all show ?thesis by (simp add: apply_animation_transform)
  qed
  have exact: "length kfs = ?n
      \<and> (locations a = [] \<or> length (locations a) = ?n)
      \<and> (\<forall>r \<in> set (rotations a). length (snd r) = ?n)"
    if t: "anim_type (xp_dataref a) = ANIM_TYPE_TRANSFORM" and k: "apply_animation a = Inr kfs"
    for kfs
  proof -
    from t k have ok: "samples_ok a" and len: "length kfs = ?n"
      by (auto simp: apply_animation_transform split: if_splits)
    from ok n have "locations a = [] \<or> length (locations a) = ?n"
      by (auto simp: samples_ok_def)
    moreover have "\<forall>r \<in> set (rotations a). length (snd r) = ?n"
    proof
      fix r assume r: "r \<in> set (rotations a)"
      with ok have "?n \<le> length (snd r)" by (auto simp: samples_ok_def)
      moreover from degree_count_member [OF r] n have "length (snd r) \<le> ?n" by simp
      ultimately show "length (snd r) = ?n" by simp
    qed
    ultimately show ?thesis using len by simp
  qed
  from n both exact show ?thesis by blast
qed

theorem sample_count_failure_witness:
  "anim_store (state_of (run mixed_stream (init_builder ''plane'' ''1a2b''))) ! 0
     \<in> set (anim_store (state_of (run mixed_stream (init_builder ''plane'' ''1a2b''))))
   \<and> length (locations (anim_store (state_of (run mixed_stream (init_builder ''plane'' ''1a2b''))) ! 0)) = 1
   \<and> degree_count (rotations (anim_store (state_of (run mixed_stream (init_builder ''plane'' ''1a2b''))) ! 0)) = 1
   \<and> length (dr_values (xp_dataref
         (anim_store (state_of (run mixed_stream (init_builder ''plane'' ''1a2b''))) ! 0))) = 2
   \<and> anim_type (xp_dataref (anim_store (state_of (run mixed_stream (init_builder ''plane'' ''1a2b''))) ! 0))
       = ANIM_TYPE_TRANSFORM
   \<and> apply_animation (anim_store (state_of (run mixed_stream (init_builder ''plane'' ''1a2b''))) ! 0)
       = Inl IndexError"
proof -
  let ?a = "anim_store (state_of (run mixed_stream (init_builder ''plane'' ''1a2b''))) ! 0"
  have a: "?a = \<lparr>locations = [(1, 2, 3)], rotations = [((0, 1, 0), [10])],
      xp_dataref = (transform_dataref ''sim/r'')\<lparr>dr_values := [0, 1]\<rparr>\<rparr>"
    by (simp add: mixed_stream_animation)
  have made: "?a \<in> set (anim_store (state_of (run mixed_stream (init_builder ''plane'' ''1a2b''))))"
    by (simp add: mixed_stream_animation)
  have t: "anim_type (xp_dataref ?a) = ANIM_TYPE_TRANSFORM"
    by (simp add: a transform_dataref_def)
  have l: "locations ?a \<noteq> [] \<and> rotations ?a \<noteq> []"
    by (simp add: a)
  from sample_count_failure [OF made] l t have "apply_animation ?a = Inl IndexError"
    by blast
  moreover have "length (locations ?a) = 1 \<and> degree_count (rotations ?a) = 1
      \<and> length (dr_values (xp_dataref ?a)) = 2"
    by (simp add: a degree_count_def)
  ultimately show ?thesis using made t by simp
qed

subsection \<open>Show and hide animations\<close>

text \<open>
  C8, as stated, fails in its example: on a fresh builder the directive
  \<^verbatim>\<open>ANIM_show(0.0, 1.0, "sim/x")\<close> alone raises an index error in
  \<^verbatim>\<open>begin_new_frame\<close> (\<^verbatim>\<open>self._anim_count[-1] += 1\<close> on an empty deque), before the
  animation is attached; finalizing the builder it leaves yields one empty with no
  keyframes at all.
\<close>

theorem show_without_bracket_fails:
  "map_sum fst id (run show_stream (init_builder ''plane'' ''1a2b'')) = Inl IndexError
   \<and> map_sum id (map fb_keyframes \<circ> objects)
       (finalize_intermediate_blocks reports_valid
          (state_of (run show_stream (init_builder ''plane'' ''1a2b'')))) = Inr [[]]"
  by (simp add: show_stream_def eval_simps fin_simps)

text \<open>
  C8, amended. For every show-kind or hide-kind animation \<^verbatim>\<open>apply_animation\<close> emits
  exactly one keyframe, at sample index 1, carrying the two thresholds and the driver
  path; in particular \<^verbatim>\<open>ANIM_begin\<close> followed by \<^verbatim>\<open>ANIM_show(0.0, 1.0, "sim/x")\<close> and
  finalization yields one keyframe at index 1 with thresholds (0.0, 1.0) and path
  \<^verbatim>\<open>"sim/x"\<close>, whatever the file's name and the host's mesh validation.
\<close>

theorem show_hide_single_keyframe:
  "(anim_type (xp_dataref a) \<in> {ANIM_TYPE_SHOW, ANIM_TYPE_HIDE} \<longrightarrow>
      apply_animation a = Inr [single_keyframe (xp_dataref a)]
      \<and> idx (single_keyframe (xp_dataref a)) = 1
      \<and> dataref_path (single_keyframe (xp_dataref a)) = path (xp_dataref a)
      \<and> dataref_show_hide_v1 (single_keyframe (xp_dataref a)) = Some (show_hide_v1 (xp_dataref a))
      \<and> dataref_show_hide_v2 (single_keyframe (xp_dataref a)) = Some (show_hide_v2 (xp_dataref a)))
   \<and> (\<exists>self r. run ((''ANIM_begin'', [], []) # show_stream) (init_builder stem tag) = Inr self
         \<and> finalize_intermediate_blocks validate self = Inr r
         \<and> map fb_keyframes (objects r) =
             [[[\<lparr>idx = 1, dataref_path = ''sim/x'', dataref_value = None,
                 dataref_anim_type = ANIM_TYPE_SHOW,
                 dataref_show_hide_v1 = Some 0, dataref_show_hide_v2 = Some 1,
                 location = None, rotation = None\<rparr>]]])"
proof -
  have "anim_type (xp_dataref a) \<in> {ANIM_TYPE_SHOW, ANIM_TYPE_HIDE} \<longrightarrow>
      apply_animation a = Inr [single_keyframe (xp_dataref a)]"
    by (auto simp: apply_animation_def single_keyframe_def ANIM_TYPE_SHOW_def ANIM_TYPE_HIDE_def
        ANIM_TYPE_TRANSFORM_def)
  moreover have "\<exists>self r. run ((''ANIM_begin'', [], []) # show_stream) (init_builder stem tag) = Inr self
         \<and> finalize_intermediate_blocks validate self = Inr r
         \<and> map fb_keyframes (objects r) =
             [[[\<lparr>idx = 1, dataref_path = ''sim/x'', dataref_value = None,
                 dataref_anim_type = ANIM_TYPE_SHOW,
                 dataref_show_hide_v1 = Some 0, dataref_show_hide_v2 = Some 1,
                 location = None, rotation = None\<rparr>]]]"
    by (simp add: show_stream_def eval_simps fin_simps)
  ultimately show ?thesis by (simp add: single_keyframe_def)
qed

theorem show_hide_single_keyframe_witness:
  "anim_type (xp_dataref (new_animation\<lparr>xp_dataref :=
      new_dataref\<lparr>anim_type := ''hide'', path := ''sim/h'', show_hide_v1 := 2, show_hide_v2 := 3\<rparr>\<rparr>))
     \<in> {ANIM_TYPE_SHOW, ANIM_TYPE_HIDE}
   \<and> map_sum id (map (\<lambda>k. (idx k, dataref_path k, dataref_show_hide_v1 k, dataref_show_hide_v2 k)))
       (apply_animation (new_animation\<lparr>xp_dataref :=
          new_dataref\<lparr>anim_type := ''hide'', path := ''sim/h'', show_hide_v1 := 2, show_hide_v2 := 3\<rparr>\<rparr>))
     = Inr [(1, ''sim/h'', Some 2, Some 3)]"
  using show_hide_single_keyframe [of "new_animation\<lparr>xp_dataref :=
      new_dataref\<lparr>anim_type := ''hide'', path := ''sim/h'', show_hide_v1 := 2, show_hide_v2 := 3\<rparr>\<rparr>"]
  by (simp add: new_animation_def new_dataref_def single_keyframe_def ANIM_TYPE_HIDE_def)

subsection \<open>Mesh building\<close>

lemma remdups_snoc: "remdups (xs @ [a]) = remdups (filter (\<lambda>b. b \<noteq> a) xs) @ [a]"
  by (induction xs) auto

lemma first_seen_Cons: "first_seen (a # xs) = a # first_seen (filter (\<lambda>b. b \<noteq> a) xs)"
  by (simp add: first_seen_def remdups_snoc rev_filter)

lemma first_seen_Nil: "first_seen [] = []"
  by (simp add: first_seen_def)

lemma set_first_seen: "set (first_seen xs) = set xs"
  by (simp add: first_seen_def)

lemma distinct_first_seen: "distinct (first_seen xs)"
  by (simp add: first_seen_def)

lemma map_of_zip_position:
  "a \<in> set u \<Longrightarrow> map_of (zip u [k..<k + length u]) a = Some (k + position u a)"
proof (induction u arbitrary: k)
  case Nil
  then show ?case by simp
next
  case (Cons b u)
  have upt: "[k..<Suc (k + length u)] = k # [Suc k..<Suc (k + length u)]"
    by (simp add: upt_conv_Cons del: upt_Suc)
  show ?case
  proof (cases "a = b")
    case True
    then show ?thesis by (simp add: upt del: upt_Suc)
  next
    case False
    with Cons.prems have "a \<in> set u" by simp
    from Cons.IH [OF this, of "Suc k"] False show ?thesis
      by (simp add: upt del: upt_Suc)
  qed
qed

lemma map_of_zip_None: "a \<notin> set u \<Longrightarrow> map_of (zip u [0..<length u]) a = None"
  by (simp add: map_of_zip_is_None)

lemma zip_snoc_upt: "zip u [0..<length u] @ [(a, length u)] = zip (u @ [a]) [0..<length (u @ [a])]"
  by simp

lemma py_index_valid: "valid_index (length table) i \<Longrightarrow> py_index table i = Inr (vertex_at table i)"
  by (auto simp: py_index_def valid_index_def vertex_at_def)

lemma dedup_loop_first_seen:
  assumes "\<forall>i \<in> set rest. valid_index (length table) i"
  shows "dedup_loop table rest (zip u [0..<length u]) (map (vertex_at table) u) =
     Inr (zip (u @ first_seen (filter (\<lambda>i. i \<notin> set u) rest))
              [0..<length (u @ first_seen (filter (\<lambda>i. i \<notin> set u) rest))],
          map (vertex_at table) (u @ first_seen (filter (\<lambda>i. i \<notin> set u) rest)))"
  using assms
proof (induction rest arbitrary: u)
  case Nil
  then show ?case by (simp add: first_seen_Nil)
next
  case (Cons a rest)
  from Cons.prems have valid: "valid_index (length table) a"
    and rest: "\<forall>i \<in> set rest. valid_index (length table) i"
    by simp_all
  show ?case
  proof (cases "a \<in> set u")
    case True
    then have "map_of (zip u [0..<length u]) a \<noteq> None"
      using map_of_zip_position [of a u 0] by simp
    with True Cons.IH [OF rest, of u] show ?thesis by simp
  next
    case False
    have filt: "filter (\<lambda>b. b \<noteq> a) (filter (\<lambda>i. i \<notin> set u) rest)
        = filter (\<lambda>i. i \<notin> set (u @ [a])) rest"
      by (auto intro: filter_cong)
    have step: "dedup_loop table (a # rest) (zip u [0..<length u]) (map (vertex_at table) u)
        = dedup_loop table rest (zip (u @ [a]) [0..<length (u @ [a])]) (map (vertex_at table) (u @ [a]))"
      using False valid
      by (simp add: map_of_zip_None py_index_valid del: upt_Suc) simp
    have "filter (\<lambda>i. i \<notin> set u) (a # rest) = a # filter (\<lambda>i. i \<notin> set u) rest"
      using False by simp
    then have "first_seen (filter (\<lambda>i. i \<notin> set u) (a # rest))
        = a # first_seen (filter (\<lambda>b. b \<noteq> a) (filter (\<lambda>i. i \<notin> set u) rest))"
      by (simp only: first_seen_Cons)
    then have fs: "first_seen (filter (\<lambda>i. i \<notin> set u) (a # rest))
        = a # first_seen (filter (\<lambda>i. i \<notin> set (u @ [a])) rest)"
      by (simp only: filt)
    show ?thesis
      unfolding step Cons.IH [OF rest, of "u @ [a]"] fs by simp
  qed
qed

lemma concat_chunk: "concat (chunk xs) = xs"
  by (induction xs rule: chunk.induct) simp_all

lemma set_chunk: "face \<in> set (chunk xs) \<Longrightarrow> set face \<subseteq> set xs"
  using concat_chunk [of xs] by (metis image_eqI set_concat set_map Union_upper)

lemma position_less: "a \<in> set u \<Longrightarrow> position u a < length u"
  by (induction u) auto

lemma remap_face_position:
  "set face \<subseteq> set u \<Longrightarrow>
     remap_face (zip u [0..<length u]) face = rev (map (position u) face)"
  using map_of_zip_position [of _ u 0]
  by (auto simp: remap_face_def subset_iff)

lemma mesh_data_first_seen:
  assumes "\<forall>i \<in> set (py_slice (idxes table) start (start + cnt)). valid_index (length (vertices table)) i"
  shows "mesh_data table start cnt =
     Inr \<lparr>mesh_vertices = map (vertex_at (vertices table))
                             (first_seen (py_slice (idxes table) start (start + cnt))),
          mesh_faces = map (\<lambda>face. rev (map (position (first_seen (py_slice (idxes table) start (start + cnt)))) face))
                           (chunk (py_slice (idxes table) start (start + cnt)))\<rparr>"
proof -
  let ?xs = "py_slice (idxes table) start (start + cnt)"
  have loop: "dedup_loop (vertices table) ?xs [] [] =
      Inr (zip (first_seen ?xs) [0..<length (first_seen ?xs)],
           map (vertex_at (vertices table)) (first_seen ?xs))"
    using dedup_loop_first_seen [OF assms, of "[]"] by simp
  have "map (remap_face (zip (first_seen ?xs) [0..<length (first_seen ?xs)])) (chunk ?xs)
      = map (\<lambda>face. rev (map (position (first_seen ?xs)) face)) (chunk ?xs)"
    by (rule map_cong [OF refl]) (simp add: remap_face_position set_chunk set_first_seen)
  with loop show ?thesis
    by (simp add: mesh_data_def Let_def)
qed


lemma build_mesh_compact:
  assumes "start_idx self = Some start" and "count self = Some cnt"
    and "\<forall>i \<in> set (mesh_idxes_of self table). valid_index (length (vertices table)) i"
  shows "build_mesh validate self table =
     Inr \<lparr>ob_name = name (datablock_info self), ob_parent = parent_info (datablock_info self),
          ob_coords = map coords (mesh_vertices (compact_mesh self table)),
          ob_faces = mesh_faces (compact_mesh self table),
          ob_normals = (if validate (compact_mesh self table) then Map.empty
                        else assign_normals (mesh_vertices (compact_mesh self table))
                               (mesh_faces (compact_mesh self table))),
          ob_uvs = (if validate (compact_mesh self table) then Map.empty
                    else assign_uvs (mesh_vertices (compact_mesh self table))
                           (mesh_faces (compact_mesh self table))),
          ob_material = ''Material'',
          ob_logged = (if validate (compact_mesh self table)
                       then [''Mesh was not valid, check console for more''] else [])\<rparr>"
proof -
  have "mesh_data table start cnt = Inr (compact_mesh self table)"
    using mesh_data_first_seen [of table start cnt] assms
    by (simp add: mesh_idxes_of_def compact_mesh_def)
  then show ?thesis
    using assms(1,2) by (simp add: build_mesh_def Let_def coords_def [abs_def])
qed

lemma compact_faces_in_range:
  "face \<in> set (mesh_faces (compact_mesh self table)) \<Longrightarrow> j \<in> set face \<Longrightarrow>
     j < length (mesh_vertices (compact_mesh self table))"
proof -
  assume "face \<in> set (mesh_faces (compact_mesh self table))" and j: "j \<in> set face"
  then obtain f where f: "f \<in> set (chunk (mesh_idxes_of self table))"
    and face: "face = rev (map (position (first_seen (mesh_idxes_of self table))) f)"
    by (auto simp: compact_mesh_def)
  from j face obtain i where i: "i \<in> set f" and ji: "j = position (first_seen (mesh_idxes_of self table)) i"
    by auto
  from set_chunk [OF f] i have "i \<in> set (first_seen (mesh_idxes_of self table))"
    by (auto simp: set_first_seen)
  then show ?thesis
    unfolding ji by (simp add: compact_mesh_def position_less)
qed

text \<open>
  C3. For a mesh node whose slice references existing vertices, \<^verbatim>\<open>build_mesh\<close> hands the
  host the vertices of the distinct indices of the slice in the order they are first seen
  (so as many vertices as distinct indices), and the triangles of the slice with every
  index replaced by its position in that list and the three positions reversed; every
  index of a triangle is below the number of vertices. The witness is the spec's example:
  the slice \<open>2, 2, 5, 2, 5, 7\<close> of a table of eight distinct vertices gives three vertices
  and the triangles \<open>[1, 0, 0]\<close> and \<open>[2, 1, 0]\<close>.
\<close>

theorem mesh_deduplication:
  assumes "start_idx self = Some start" and "count self = Some cnt"
    and "\<forall>i \<in> set (mesh_idxes_of self table). valid_index (length (vertices table)) i"
  shows "\<exists>ob. build_mesh validate self table = Inr ob
     \<and> ob_coords ob = map (\<lambda>i. coords (vertex_at (vertices table) i))
                         (first_seen (mesh_idxes_of self table))
     \<and> distinct (first_seen (mesh_idxes_of self table))
     \<and> set (first_seen (mesh_idxes_of self table)) = set (mesh_idxes_of self table)
     \<and> length (ob_coords ob) = card (set (mesh_idxes_of self table))
     \<and> ob_faces ob = map (\<lambda>face. rev (map (position (first_seen (mesh_idxes_of self table))) face))
                         (chunk (mesh_idxes_of self table))
     \<and> (\<forall>face \<in> set (ob_faces ob). \<forall>j \<in> set face. j < length (ob_coords ob))"
proof -
  have "length (first_seen (mesh_idxes_of self table)) = card (set (mesh_idxes_of self table))"
    using distinct_card [OF distinct_first_seen, of "mesh_idxes_of self table"]
    by (simp add: set_first_seen)
  moreover have "\<forall>face \<in> set (mesh_faces (compact_mesh self table)). \<forall>j \<in> set face.
      j < length (mesh_vertices (compact_mesh self table))"
    using compact_faces_in_range by blast
  ultimately show ?thesis
    unfolding build_mesh_compact [OF assms]
    by (simp add: distinct_first_seen set_first_seen) (simp add: compact_mesh_def)
qed


lemma example_slice: "mesh_idxes_of example_mesh example_table = [2, 2, 5, 2, 5, 7]"
  by (simp add: mesh_idxes_of_def example_mesh_def example_table_def py_slice_def py_slice_bound_def)

lemma example_first_seen: "first_seen [2, 2, 5, 2, 5, 7 :: int] = [2, 5, 7]"
  by (simp add: first_seen_def)

lemma example_compact:
  "compact_mesh example_mesh example_table =
     \<lparr>mesh_vertices = [example_vertex 2, example_vertex 5, example_vertex 7],
      mesh_faces = [[1, 0, 0], [2, 1, 0]]\<rparr>"
  by (simp add: compact_mesh_def example_slice example_first_seen)
     (simp add: example_table_def vertex_at_def)

theorem mesh_deduplication_witness:
  "start_idx example_mesh = Some 3 \<and> count example_mesh = Some 6
   \<and> mesh_idxes_of example_mesh example_table = [2, 2, 5, 2, 5, 7]
   \<and> length (vertices example_table) = 8 \<and> distinct (vertices example_table)
   \<and> (\<exists>ob. build_mesh reports_valid example_mesh example_table = Inr ob
        \<and> ob_coords ob = [(2, 0, 0), (5, 0, 0), (7, 0, 0)]
        \<and> length (ob_coords ob) = 3
        \<and> ob_faces ob = [[1, 0, 0], [2, 1, 0]])"
proof -
  have s: "start_idx example_mesh = Some 3" and c: "count example_mesh = Some 6"
    by (simp_all add: example_mesh_def)
  have v: "\<forall>i \<in> set (mesh_idxes_of example_mesh example_table).
      valid_index (length (vertices example_table)) i"
    by (simp add: example_slice) (simp add: example_table_def valid_index_def)
  have d: "length (vertices example_table) = 8 \<and> distinct (vertices example_table)"
    by (simp add: example_table_def example_vertex_def)
  from mesh_deduplication [OF s c v, of reports_valid] obtain ob where
    ob: "build_mesh reports_valid example_mesh example_table = Inr ob"
    and co: "ob_coords ob = map (\<lambda>i. coords (vertex_at (vertices example_table) i))
                (first_seen (mesh_idxes_of example_mesh example_table))"
    and fa: "ob_faces ob = map (\<lambda>face. rev (map (position (first_seen (mesh_idxes_of example_mesh example_table))) face))
                (chunk (mesh_idxes_of example_mesh example_table))"
    by blast
  have "ob_coords ob = [(2, 0, 0), (5, 0, 0), (7, 0, 0)]"
    unfolding co example_slice example_first_seen
    by (simp add: example_table_def vertex_at_def coords_def example_vertex_def)
  moreover have "ob_faces ob = [[1, 0, 0], [2, 1, 0]]"
    unfolding fa example_slice example_first_seen by simp
  ultimately show ?thesis
    using s c d ob by (simp add: example_slice)
qed

text \<open>
  C5, as stated, fails: when the host reports the mesh invalid, the error is logged and the
  node is returned, but no normal and no UV is assigned to any vertex, also not to those
  of well-formed triangles. The assignment loop is the branch taken when the host finds
  nothing invalid.
\<close>

theorem invalid_mesh_gets_no_normals:
  "build_mesh reports_invalid example_mesh example_table = Inr example_invalid_object
   \<and> ob_faces example_invalid_object = [[1, 0, 0], [2, 1, 0]]
   \<and> ob_normals example_invalid_object 0 = None
   \<and> ob_normals example_invalid_object 1 = None
   \<and> ob_normals example_invalid_object 2 = None
   \<and> ob_uvs example_invalid_object 0 = None
   \<and> ob_uvs example_invalid_object 1 = None
   \<and> ob_uvs example_invalid_object 2 = None"
proof -
  have s: "start_idx example_mesh = Some 3" and c: "count example_mesh = Some 6"
    by (simp_all add: example_mesh_def)
  have v: "\<forall>i \<in> set (mesh_idxes_of example_mesh example_table).
      valid_index (length (vertices example_table)) i"
    by (simp add: example_slice) (simp add: example_table_def valid_index_def)
  show ?thesis
    unfolding build_mesh_compact [OF s c v] example_compact
    by (simp add: example_invalid_object_def reports_invalid_def coords_def example_vertex_def
        example_mesh_def)
qed

text \<open>
  C5, amended. A mesh the host reports invalid is not fatal: \<^verbatim>\<open>build_mesh\<close> logs one
  error and returns the node with its material, but assigns no normal and no UV. When the
  host reports the mesh valid nothing is logged, and every vertex referenced by a triangle
  receives the normal and the UV of its vertex record (and no other vertex does).
\<close>

theorem mesh_validation_outcome:
  assumes "start_idx self = Some start" and "count self = Some cnt"
    and "\<forall>i \<in> set (mesh_idxes_of self table). valid_index (length (vertices table)) i"
  shows "\<exists>ob. build_mesh validate self table = Inr ob
     \<and> ob_faces ob = mesh_faces (compact_mesh self table)
     \<and> ob_material ob = ''Material''
     \<and> (validate (compact_mesh self table) \<longrightarrow>
            ob_logged ob = [''Mesh was not valid, check console for more'']
          \<and> ob_normals ob = Map.empty \<and> ob_uvs ob = Map.empty)
     \<and> (\<not> validate (compact_mesh self table) \<longrightarrow>
            ob_logged ob = []
          \<and> (\<forall>i. ob_normals ob i =
                 (if i \<in> set (concat (ob_faces ob))
                  then Some (vt_nx (mesh_vertices (compact_mesh self table) ! i),
                             vt_ny (mesh_vertices (compact_mesh self table) ! i),
                             vt_nz (mesh_vertices (compact_mesh self table) ! i))
                  else None))
          \<and> (\<forall>i. ob_uvs ob i =
                 (if i \<in> set (concat (ob_faces ob))
                  then Some (vt_s (mesh_vertices (compact_mesh self table) ! i),
                             vt_t (mesh_vertices (compact_mesh self table) ! i))
                  else None)))"
  unfolding build_mesh_compact [OF assms]
  by (simp add: assign_normals_def assign_uvs_def)

theorem mesh_validation_outcome_witness:
  "start_idx example_mesh = Some 3 \<and> count example_mesh = Some 6
   \<and> mesh_idxes_of example_mesh example_table = [2, 2, 5, 2, 5, 7]
   \<and> reports_invalid (compact_mesh example_mesh example_table)
   \<and> (\<exists>ob. build_mesh reports_invalid example_mesh example_table = Inr ob
        \<and> ob_logged ob = [''Mesh was not valid, check console for more'']
        \<and> ob_normals ob 1 = None)
   \<and> \<not> reports_valid (compact_mesh example_mesh example_table)
   \<and> (\<exists>ob. build_mesh reports_valid example_mesh example_table = Inr ob
        \<and> ob_logged ob = []
        \<and> ob_normals ob 1 = Some (0, 0, 1)
        \<and> ob_uvs ob 1 = Some (0, 5)
        \<and> ob_normals ob 3 = None)"
proof -
  have s: "start_idx example_mesh = Some 3" and c: "count example_mesh = Some 6"
    by (simp_all add: example_mesh_def)
  have v: "\<forall>i \<in> set (mesh_idxes_of example_mesh example_table).
      valid_index (length (vertices example_table)) i"
    by (simp add: example_slice) (simp add: example_table_def valid_index_def)
  from mesh_validation_outcome [OF s c v, of reports_invalid] obtain ob where
    "build_mesh reports_invalid example_mesh example_table = Inr ob
      \<and> ob_logged ob = [''Mesh was not valid, check console for more''] \<and> ob_normals ob 1 = None"
    by (auto simp: reports_invalid_def)
  moreover
  from mesh_validation_outcome [OF s c v, of reports_valid] obtain ob' where
    "build_mesh reports_valid example_mesh example_table = Inr ob'"
    and "ob_faces ob' = mesh_faces (compact_mesh example_mesh example_table)"
    and "ob_logged ob' = []"
    and "\<forall>i. ob_normals ob' i =
                 (if i \<in> set (concat (ob_faces ob'))
                  then Some (vt_nx (mesh_vertices (compact_mesh example_mesh example_table) ! i),
                             vt_ny (mesh_vertices (compact_mesh example_mesh example_table) ! i),
                             vt_nz (mesh_vertices (compact_mesh example_mesh example_table) ! i))
                  else None)"
    and "\<forall>i. ob_uvs ob' i =
                 (if i \<in> set (concat (ob_faces ob'))
                  then Some (vt_s (mesh_vertices (compact_mesh example_mesh example_table) ! i),
                             vt_t (mesh_vertices (compact_mesh example_mesh example_table) ! i))
                  else None)"
    by (auto simp: reports_valid_def)
  then have "build_mesh reports_valid example_mesh example_table = Inr ob'
      \<and> ob_logged ob' = [] \<and> ob_normals ob' 1 = Some (0, 0, 1) \<and> ob_uvs ob' 1 = Some (0, 5)
      \<and> ob_normals ob' 3 = None"
    by (simp add: example_compact example_vertex_def)
  ultimately show ?thesis
    using s c by (auto simp: example_slice reports_invalid_def reports_valid_def)
qed

subsection \<open>The finalizer's status\<close>

lemmas mesh_simps = build_mesh_def mesh_data_def py_slice_def py_slice_bound_def py_index_def
  remap_face_def assign_normals_def assign_uvs_def logged_def

text \<open>
  C4, as stated, fails: the returned status carries no flag for warnings. Finalizing the
  same one-triangle builder returns the status \<open>{FINISHED}\<close> both when the host accepts the
  mesh (nothing logged) and when it reports it invalid (one error logged).
\<close>

theorem status_ignores_warnings:
  "map_sum id status (finalize_intermediate_blocks reports_valid
       (state_of (run mesh_stream (init_builder ''plane'' ''1a2b'')))) = Inr {''FINISHED''}
   \<and> map_sum id logged (finalize_intermediate_blocks reports_valid
       (state_of (run mesh_stream (init_builder ''plane'' ''1a2b'')))) = Inr []
   \<and> map_sum id status (finalize_intermediate_blocks reports_invalid
       (state_of (run mesh_stream (init_builder ''plane'' ''1a2b'')))) = Inr {''FINISHED''}
   \<and> map_sum id logged (finalize_intermediate_blocks reports_invalid
       (state_of (run mesh_stream (init_builder ''plane'' ''1a2b''))))
       = Inr [''Mesh was not valid, check console for more'']"
proof -
  have st: "state_of (run mesh_stream (init_builder ''plane'' ''1a2b'')) =
    (init_builder ''plane'' ''1a2b'')
      \<lparr>vt_table := \<lparr>vertices =
           [\<lparr>vt_x = 0, vt_y = 0, vt_z = 0, vt_nx = 0, vt_ny = 0, vt_nz = 1, vt_s = 0, vt_t = 0\<rparr>,
            \<lparr>vt_x = 1, vt_y = 0, vt_z = 0, vt_nx = 0, vt_ny = 0, vt_nz = 1, vt_s = 1, vt_t = 0\<rparr>,
            \<lparr>vt_x = 0, vt_y = 1, vt_z = 0, vt_nx = 0, vt_ny = 0, vt_nz = 1, vt_s = 0, vt_t = 1\<rparr>],
           idxes = [0, 1, 2]\<rparr>,
       blocks := [new_root ''plane'',
          \<lparr>datablock_info = \<lparr>datablock_type = MESH, name = ''ImpMesh.000_1a2b'',
              parent_info = Some ''INTER_ROOT'', collection = ''plane''\<rparr>,
           start_idx = Some 0, count = Some 3, animations_to_apply = []\<rparr>]\<rparr>"
    by (simp add: mesh_stream_def eval_simps numeral_2_eq_2)
  show ?thesis
    unfolding st
    by (simp add: init_builder_def new_root_def fin_simps mesh_simps reports_valid_def reports_invalid_def)
qed
lemma apply_animations_ok:
  "\<forall>a \<in> set as. anim_type (xp_dataref (store ! a)) = ANIM_TYPE_TRANSFORM \<longrightarrow> samples_ok (store ! a)
   \<Longrightarrow> \<exists>ks. apply_animations store as = Inr ks"
proof (induction as)
  case Nil
  then show ?case by simp
next
  case (Cons a as)
  then obtain ks where ks: "apply_animations store as = Inr ks" by auto
  have "\<exists>k. apply_animation (store ! a) = Inr k"
  proof (cases "anim_type (xp_dataref (store ! a)) = ANIM_TYPE_TRANSFORM")
    case True
    with Cons.prems show ?thesis by (simp add: apply_animation_transform)
  next
    case False
    then show ?thesis by (simp add: apply_animation_def)
  qed
  with ks show ?case by auto
qed

lemma finalize_block_ok:
  assumes "block_ok table store b"
  shows "\<exists>fb. finalize_block validate table store b = Inr fb"
proof -
  from assms obtain parent where p: "parent_info (datablock_info b) = Some parent"
    by (auto simp: block_ok_def)
  define db_info where "db_info = (if parent = ''INTER_ROOT''
      then (datablock_info b)\<lparr>parent_info := None\<rparr> else datablock_info b)"
  define block where "block = b\<lparr>datablock_info := db_info\<rparr>"
  have ty: "datablock_type db_info = datablock_type (datablock_info b)"
    by (simp add: db_info_def)
  have an: "animations_to_apply block = animations_to_apply b"
    by (simp add: block_def)
  from assms obtain ks where ks: "apply_animations store (animations_to_apply block) = Inr ks"
    using apply_animations_ok [of "animations_to_apply b" store] by (auto simp: block_ok_def an)
  have "\<exists>ob. (case datablock_type db_info of
                EMPTY \<Rightarrow> Inr (Created_empty db_info)
              | MESH \<Rightarrow> map_sum id Created_mesh (build_mesh validate block table)) = Inr ob"
  proof (cases "datablock_type (datablock_info b)")
    case EMPTY
    then show ?thesis by (simp add: ty)
  next
    case MESH
    with assms obtain start cnt where sc: "start_idx block = Some start" "count block = Some cnt"
      by (auto simp: block_ok_def block_def)
    have same: "mesh_idxes_of block table = mesh_idxes_of b table"
      by (simp add: mesh_idxes_of_def block_def)
    from assms MESH have v: "\<forall>i \<in> set (mesh_idxes_of block table). valid_index (length (vertices table)) i"
      by (simp add: block_ok_def same)
    show ?thesis
      by (simp add: ty MESH build_mesh_compact [OF sc v])
  qed
  then obtain ob where ob: "(case datablock_type db_info of
                EMPTY \<Rightarrow> Inr (Created_empty db_info)
              | MESH \<Rightarrow> map_sum id Created_mesh (build_mesh validate block table)) = Inr ob"
    by blast
  show ?thesis
    unfolding finalize_block_def p
    using ob ks unfolding block_def
    by (simp add: db_info_def [symmetric] Let_def)
qed

lemma finalize_loop_ok:
  "\<forall>b \<in> set bs. block_ok table store b \<Longrightarrow>
     \<exists>obs. finalize_loop validate table store bs acc = Inr obs \<and> length obs = length acc + length bs"
proof (induction bs arbitrary: acc)
  case Nil
  then show ?case by simp
next
  case (Cons b bs)
  then obtain fb where "finalize_block validate table store b = Inr fb"
    using finalize_block_ok [of table store b validate] by auto
  with Cons.IH [of "acc @ [fb]"] Cons.prems show ?case by auto
qed

text \<open>
  C4, amended. Whenever finalization completes (\<open>finalizable\<close>), it returns the one
  status \<open>{FINISHED}\<close>, with one object per node after the root and the frame reset to 1,
  whatever the host's mesh validation reports: a mesh reported invalid is logged and
  changes nothing in the status, which has no failure value and no flag for warnings.
\<close>

theorem finalize_always_finished:
  assumes "finalizable self"
  shows "\<exists>r. finalize_intermediate_blocks validate self = Inr r
     \<and> status r = {''FINISHED''}
     \<and> frame_current r = 1
     \<and> length (objects r) = length (blocks self) - 1"
proof -
  from assms obtain obs where
    "finalize_loop validate (vt_table self) (anim_store self) (drop 1 (blocks self)) [] = Inr obs"
    and "length obs = length (blocks self) - 1"
    using finalize_loop_ok [of "drop 1 (blocks self)" "vt_table self" "anim_store self" validate "[]"]
    by (auto simp: finalizable_def)
  then show ?thesis
    by (simp add: finalize_intermediate_blocks_def)
qed

theorem finalize_always_finished_witness:
  "finalizable (state_of (run mesh_stream (init_builder ''plane'' ''1a2b'')))
   \<and> (\<exists>r. finalize_intermediate_blocks reports_invalid
             (state_of (run mesh_stream (init_builder ''plane'' ''1a2b''))) = Inr r
        \<and> status r = {''FINISHED''} \<and> frame_current r = 1 \<and> length (objects r) = 1)"
proof -
  have st: "state_of (run mesh_stream (init_builder ''plane'' ''1a2b'')) =
    (init_builder ''plane'' ''1a2b'')
      \<lparr>vt_table := \<lparr>vertices =
           [\<lparr>vt_x = 0, vt_y = 0, vt_z = 0, vt_nx = 0, vt_ny = 0, vt_nz = 1, vt_s = 0, vt_t = 0\<rparr>,
            \<lparr>vt_x = 1, vt_y = 0, vt_z = 0, vt_nx = 0, vt_ny = 0, vt_nz = 1, vt_s = 1, vt_t = 0\<rparr>,
            \<lparr>vt_x = 0, vt_y = 1, vt_z = 0, vt_nx = 0, vt_ny = 0, vt_nz = 1, vt_s = 0, vt_t = 1\<rparr>],
           idxes = [0, 1, 2]\<rparr>,
       blocks := [new_root ''plane'',
          \<lparr>datablock_info = \<lparr>datablock_type = MESH, name = ''ImpMesh.000_1a2b'',
              parent_info = Some ''INTER_ROOT'', collection = ''plane''\<rparr>,
           start_idx = Some 0, count = Some 3, animations_to_apply = []\<rparr>]\<rparr>"
    by (simp add: mesh_stream_def eval_simps numeral_2_eq_2)
  have f: "finalizable (state_of (run mesh_stream (init_builder ''plane'' ''1a2b'')))"
    unfolding st
    by (simp add: finalizable_def block_ok_def init_builder_def mesh_idxes_of_def py_slice_def
        py_slice_bound_def valid_index_def)
  have n: "length (blocks (state_of (run mesh_stream (init_builder ''plane'' ''1a2b'')))) = 2"
    unfolding st by (simp add: init_builder_def)
  from finalize_always_finished [OF f, of reports_invalid] f show ?thesis
    unfolding n by simp
qed

subsection \<open>Rotation axes\<close>

text \<open>
  C7. Inside an open bracket, \<^verbatim>\<open>ANIM_rotate_begin\<close> stores the axis with the absolute value
  of each component, and the degree values of the \<^verbatim>\<open>ANIM_rotate_key\<close> directives that
  follow go to the bucket of that absolute-valued axis; the static \<^verbatim>\<open>ANIM_rotate\<close> puts
  its two degree values in the bucket of the axis as given, signs kept.
\<close>

theorem rotation_axis_buckets:
  assumes "anim_count self \<noteq> []"
  shows "\<exists>s1 s2 s3 s4.
       build_cmd ''ANIM_rotate_begin'' [AVec axis, AStr p] h self = Inr s1
     \<and> last_axis s1 = Some (vabs axis)
     \<and> build_cmd ''ANIM_rotate_key'' [AFloat v, AFloat d] h s1 = Inr s2
     \<and> map_option rotations (open_animation s2) = Some [(vabs axis, [d])]
     \<and> build_cmd ''ANIM_rotate_key'' [AFloat v', AFloat d'] h s2 = Inr s3
     \<and> map_option rotations (open_animation s3) = Some [(vabs axis, [d, d'])]
     \<and> build_cmd ''ANIM_rotate'' [AVec axis, AFloat r1, AFloat r2, AFloat v1, AFloat v2, AStr p] h self
         = Inr s4
     \<and> map_option rotations (open_animation s4) = Some [(axis, [r1, r2])]"
proof -
  from assms obtain c cs where c: "anim_count self = c # cs"
    by (cases "anim_count self") auto
  show ?thesis
    by (simp add: c build_cmd_def cmd_ANIM_rotate_begin_def cmd_ANIM_rotate_key_def
        cmd_ANIM_rotate_def rotate_begin_args_def rotate_key_args_def rotate_args_def
        with_args_def bind_def begin_new_frame_def with_top_animation_def with_top_dataref_def
        top_animation_def open_animation_def new_animation_def rotations_append_def Let_def)
qed

theorem rotation_axis_buckets_witness:
  "anim_count (state_of (run [(''ANIM_begin'', [], [])] (init_builder ''plane'' ''1a2b''))) \<noteq> []
   \<and> (\<exists>s1 s2 s4.
       build_cmd ''ANIM_rotate_begin'' [AVec (0, -1, 0), AStr ''sim/r''] []
         (state_of (run [(''ANIM_begin'', [], [])] (init_builder ''plane'' ''1a2b''))) = Inr s1
     \<and> last_axis s1 = Some (0, 1, 0)
     \<and> build_cmd ''ANIM_rotate_key'' [AFloat 0, AFloat 10] [] s1 = Inr s2
     \<and> map_option rotations (open_animation s2) = Some [((0, 1, 0), [10])]
     \<and> build_cmd ''ANIM_rotate'' [AVec (0, -1, 0), AFloat 0, AFloat 90, AFloat 0, AFloat 1, AStr ''sim/r''] []
         (state_of (run [(''ANIM_begin'', [], [])] (init_builder ''plane'' ''1a2b''))) = Inr s4
     \<and> map_option rotations (open_animation s4) = Some [((0, -1, 0), [0, 90])])"
proof -
  let ?s = "state_of (run [(''ANIM_begin'', [], [])] (init_builder ''plane'' ''1a2b''))"
  have h: "anim_count ?s \<noteq> []"
    by (simp add: eval_simps)
  from rotation_axis_buckets [OF h, of "(0, -1, 0)" "''sim/r''" "[]" 0 10 0 10 0 90 0 1]
  show ?thesis
    using h by (auto simp: vabs_def)
qed

subsection \<open>Animations per node\<close>

lemma nodes_ok_bind:
  "nodes_ok (state_of r) \<Longrightarrow> (\<And>s. nodes_ok s \<Longrightarrow> nodes_ok (state_of (f s))) \<Longrightarrow>
     nodes_ok (state_of (bind r f))"
  by (cases r) (auto simp: bind_def state_of_def)

lemma nodes_ok_with_args:
  "nodes_ok s \<Longrightarrow> (\<And>a. nodes_ok (state_of (f a))) \<Longrightarrow> nodes_ok (state_of (with_args d s f))"
  by (cases d) (auto simp: with_args_def state_of_def)

lemma nodes_ok_with_top_animation:
  "nodes_ok s \<Longrightarrow> nodes_ok (state_of (with_top_animation f s))"
  by (auto simp: with_top_animation_def state_of_def nodes_ok_def split: option.splits)

lemma nodes_ok_with_top_dataref:
  "nodes_ok s \<Longrightarrow> nodes_ok (state_of (with_top_dataref f s))"
  by (simp add: with_top_dataref_def nodes_ok_with_top_animation)

lemma nodes_ok_begin_new_frame:
  "nodes_ok s \<Longrightarrow> nodes_ok (state_of (begin_new_frame s))"
  by (auto simp: begin_new_frame_def state_of_def nodes_ok_def Let_def split: list.splits)

lemma nodes_ok_pop_contexts:
  "nodes_ok s \<Longrightarrow> nodes_ok (state_of (pop_contexts n s))"
proof (induction n arbitrary: s)
  case 0
  then show ?case by (simp add: state_of_def)
next
  case (Suc n)
  show ?case
  proof (cases "anim_intermediate_stack s")
    case Nil
    with Suc.prems show ?thesis by (simp add: state_of_def)
  next
    case (Cons e rest)
    have "nodes_ok (s\<lparr>anim_intermediate_stack := rest\<rparr>)"
      using Suc.prems by (simp add: nodes_ok_def)
    from Suc.IH [OF this] Cons show ?thesis by simp
  qed
qed

lemma nodes_ok_last_axis: "nodes_ok s \<Longrightarrow> nodes_ok (s\<lparr>last_axis := ax\<rparr>)"
  by (simp add: nodes_ok_def)

lemmas nodes_ok_intros = nodes_ok_with_args nodes_ok_bind nodes_ok_with_top_animation
  nodes_ok_with_top_dataref nodes_ok_begin_new_frame nodes_ok_pop_contexts nodes_ok_last_axis

lemma nodes_ok_plain:
  assumes "nodes_ok s"
  shows "nodes_ok (state_of (cmd_VT args s))"
    and "nodes_ok (state_of (cmd_IDX args s))"
    and "nodes_ok (state_of (cmd_IDX10 args s))"
    and "nodes_ok (state_of (cmd_TRIS args h s))"
    and "nodes_ok (state_of (cmd_ANIM_begin s))"
    and "nodes_ok (state_of (cmd_ANIM_rotate_end s))"
    and "nodes_ok (state_of (Inr s))"
  using assms
  by (auto simp: cmd_VT_def cmd_IDX_def cmd_IDX10_def cmd_TRIS_def cmd_ANIM_begin_def
      cmd_ANIM_rotate_end_def with_args_def state_of_def nodes_ok_def Let_def
      split: sum.splits prod.splits)

lemma nodes_ok_ANIM_end:
  "nodes_ok s \<Longrightarrow> nodes_ok (state_of (cmd_ANIM_end s))"
proof (cases "anim_count s")
  case Nil
  assume "nodes_ok s"
  with Nil show ?thesis by (simp add: cmd_ANIM_end_def state_of_def)
next
  case (Cons c cs)
  assume "nodes_ok s"
  then have "nodes_ok (s\<lparr>anim_count := cs\<rparr>)" by (simp add: nodes_ok_def)
  then show ?thesis by (simp add: cmd_ANIM_end_def Cons nodes_ok_pop_contexts)
qed

lemma nodes_ok_frames:
  assumes "nodes_ok s"
  shows "nodes_ok (state_of (cmd_ANIM_trans_begin args s))"
    and "nodes_ok (state_of (cmd_ANIM_trans_key args s))"
    and "nodes_ok (state_of (cmd_ANIM_show_hide d args s))"
    and "nodes_ok (state_of (cmd_ANIM_rotate_begin args s))"
    and "nodes_ok (state_of (cmd_ANIM_keyframe_loop args s))"
    and "nodes_ok (state_of (cmd_ANIM_trans args s))"
    and "nodes_ok (state_of (cmd_ANIM_rotate args s))"
  unfolding cmd_ANIM_trans_begin_def cmd_ANIM_trans_key_def cmd_ANIM_show_hide_def
    cmd_ANIM_rotate_begin_def cmd_ANIM_keyframe_loop_def cmd_ANIM_trans_def cmd_ANIM_rotate_def
  using assms by (auto intro!: nodes_ok_intros split: prod.splits)

lemma nodes_ok_rotate_key:
  assumes "nodes_ok s"
  shows "nodes_ok (state_of (cmd_ANIM_rotate_key args s))"
  unfolding cmd_ANIM_rotate_key_def
proof (rule nodes_ok_with_args [OF assms])
  fix a :: "real \<times> real"
  obtain v d where a: "a = (v, d)" by (cases a)
  show "nodes_ok (state_of (case a of (v, degrees) \<Rightarrow>
      case top_animation s of
        None \<Rightarrow> Inl (AttributeError, s)
      | Some _ \<Rightarrow>
         (case last_axis s of
            None \<Rightarrow> Inl (AttributeError, s)
          | Some axis \<Rightarrow>
              bind (with_top_animation (\<lambda>a. a\<lparr>rotations := rotations_append axis degrees (rotations a)\<rparr>) s)
                   (with_top_dataref (\<lambda>d. d\<lparr>dr_values := dr_values d @ [v]\<rparr>)))))"
    using assms
    by (cases "top_animation s"; cases "last_axis s")
       (simp_all add: a state_of_simps nodes_ok_intros)
qed

lemma nodes_ok_build_cmd:
  "nodes_ok s \<Longrightarrow> nodes_ok (state_of (build_cmd directive args h s))"
  unfolding build_cmd_def
  by (simp add: nodes_ok_plain nodes_ok_ANIM_end nodes_ok_frames nodes_ok_rotate_key)
     (simp add: state_of_def)

lemma nodes_ok_run:
  "nodes_ok s \<Longrightarrow> nodes_ok (state_of (run cs s))"
proof (induction cs arbitrary: s)
  case Nil
  then show ?case by (simp add: state_of_def)
next
  case (Cons c cs)
  obtain directive args h where c: "c = (directive, args, h)" by (cases c)
  show ?case
  proof (cases "build_cmd directive args h s")
    case (Inl e)
    with nodes_ok_build_cmd [OF Cons.prems, of directive args h] show ?thesis
      by (simp add: c state_of_def)
  next
    case (Inr s')
    with nodes_ok_build_cmd [OF Cons.prems, of directive args h] have "nodes_ok s'"
      by (simp add: state_of_def)
    from Cons.IH [OF this] Inr show ?thesis by (simp add: c)
  qed
qed

lemma nodes_ok_init: "nodes_ok (init_builder stem tag)"
  by (simp add: nodes_ok_def init_builder_def new_root_def)


lemma begin_new_frame_attaches:
  "begin_new_frame self = Inr self' \<Longrightarrow>
     \<exists>b. blocks self' = blocks self @ [b]
       \<and> datablock_type (datablock_info b) = EMPTY
       \<and> animations_to_apply b = [length (anim_store self)]
       \<and> top_animation self' = Some (length (anim_store self))
       \<and> length (anim_store self') = Suc (length (anim_store self))"
  by (auto simp: begin_new_frame_def top_animation_def Let_def split: list.splits)

lemma tris_adds_mesh:
  "build_cmd ''TRIS'' args h self = Inr self' \<Longrightarrow>
     \<exists>b. blocks self' = blocks self @ [b]
       \<and> datablock_type (datablock_info b) = MESH
       \<and> animations_to_apply b = []"
  by (auto simp: build_cmd_def cmd_TRIS_def with_args_def Let_def split: sum.splits prod.splits)

text \<open>
  C10, as stated, fails for a \<^verbatim>\<open>begin_new_frame\<close> call made while no bracket is open: it
  appends its empty node, then raises at \<^verbatim>\<open>self._anim_count[-1] += 1\<close>, before the
  animation is attached. The node it just created carries no animation.
\<close>

theorem frame_outside_bracket_attaches_nothing:
  "map_sum fst id (begin_new_frame (init_builder ''plane'' ''1a2b'')) = Inl IndexError
   \<and> map (\<lambda>b. (datablock_type (datablock_info b), animations_to_apply b))
         (blocks (state_of (begin_new_frame (init_builder ''plane'' ''1a2b''))))
       = [(EMPTY, []), (EMPTY, [])]"
  by (simp add: eval_simps)

text \<open>
  C10, amended. After any sequence of directives, processed up to its end or up to the
  first exception, every node of the flat list carries at most one pending animation, and
  the mesh nodes and the root carry none: each \<^verbatim>\<open>begin_new_frame\<close> call that returns has
  appended one empty node carrying exactly one animation, the fresh one now on top of the
  context stack, and each \<^verbatim>\<open>TRIS\<close> appends a mesh node without animation.
\<close>

theorem at_most_one_animation:
  "(\<forall>b \<in> set (blocks (state_of (run cs (init_builder stem tag)))).
       length (animations_to_apply b) \<le> 1
       \<and> (datablock_type (datablock_info b) = MESH \<longrightarrow> animations_to_apply b = []))
   \<and> animations_to_apply (root_intermediate_datablock (state_of (run cs (init_builder stem tag)))) = []
   \<and> animations_to_apply (hd (blocks (state_of (run cs (init_builder stem tag))))) = []
   \<and> (\<forall>self self'. begin_new_frame self = Inr self' \<longrightarrow>
        (\<exists>b. blocks self' = blocks self @ [b]
           \<and> datablock_type (datablock_info b) = EMPTY
           \<and> animations_to_apply b = [length (anim_store self)]
           \<and> top_animation self' = Some (length (anim_store self))
           \<and> length (anim_store self') = Suc (length (anim_store self))))
   \<and> (\<forall>self self' args h. build_cmd ''TRIS'' args h self = Inr self' \<longrightarrow>
        (\<exists>b. blocks self' = blocks self @ [b]
           \<and> datablock_type (datablock_info b) = MESH
           \<and> animations_to_apply b = []))"
proof -
  have "nodes_ok (state_of (run cs (init_builder stem tag)))"
    by (rule nodes_ok_run [OF nodes_ok_init])
  then show ?thesis
    using begin_new_frame_attaches tris_adds_mesh
    by (simp add: nodes_ok_def)
qed

theorem at_most_one_animation_witness:
  "map (\<lambda>b. (datablock_type (datablock_info b), animations_to_apply b))
       (blocks (state_of (run busy_stream (init_builder ''plane'' ''1a2b''))))
     = [(EMPTY, []), (EMPTY, [0]), (MESH, []), (EMPTY, [1]), (EMPTY, [])]
   \<and> animations_to_apply (hd (blocks (state_of (run busy_stream (init_builder ''plane'' ''1a2b''))))) = []
   \<and> map_sum fst id (run busy_stream (init_builder ''plane'' ''1a2b'')) = Inl IndexError"
proof -
  have "map (\<lambda>b. (datablock_type (datablock_info b), animations_to_apply b))
       (blocks (state_of (run busy_stream (init_builder ''plane'' ''1a2b''))))
     = [(EMPTY, []), (EMPTY, [0]), (MESH, []), (EMPTY, [1]), (EMPTY, [])]
    \<and> map_sum fst id (run busy_stream (init_builder ''plane'' ''1a2b'')) = Inl IndexError"
    by (simp add: busy_stream_def eval_simps numeral_2_eq_2)
  with at_most_one_animation [of busy_stream "''plane''" "''1a2b''"] show ?thesis
    by blast
qed

subsection \<open>Bracket balance\<close>

lemma bind_Inr: "bind r f = Inr s' \<longleftrightarrow> (\<exists>s1. r = Inr s1 \<and> f s1 = Inr s')"
  by (cases r) (auto simp: bind_def)

lemma with_args_Inr: "with_args d s f = Inr s' \<longleftrightarrow> (\<exists>a. d = Inr a \<and> f a = Inr s')"
  by (cases d) (auto simp: with_args_def)

lemma frames_with_top_animation:
  "with_top_animation f s = Inr s' \<Longrightarrow> frames s' = frames s"
  by (auto simp: with_top_animation_def frames_def split: option.splits)

lemma frames_with_top_dataref:
  "with_top_dataref f s = Inr s' \<Longrightarrow> frames s' = frames s"
  unfolding with_top_dataref_def by (rule frames_with_top_animation)

lemma frame_pushed_begin: "begin_new_frame s = Inr s' \<Longrightarrow> frame_pushed s s'"
  by (auto simp: begin_new_frame_def frame_pushed_def frames_def count_kind_def Let_def
      split: list.splits)

lemma frame_pushed_last_axis: "frame_pushed (s\<lparr>last_axis := ax\<rparr>) s' \<Longrightarrow> frame_pushed s s'"
  by (simp add: frame_pushed_def frames_def)

lemma frame_pushed_cong: "frame_pushed s s1 \<Longrightarrow> frames s' = frames s1 \<Longrightarrow> frame_pushed s s'"
  by (simp add: frame_pushed_def)

lemma opener_trans_begin:
  "cmd_ANIM_trans_begin args s = Inr s' \<Longrightarrow> frame_pushed s s'"
  by (auto simp: cmd_ANIM_trans_begin_def with_args_Inr bind_Inr
      dest!: frame_pushed_begin frames_with_top_animation frames_with_top_dataref
      elim: frame_pushed_cong)

lemma opener_show_hide:
  "cmd_ANIM_show_hide d args s = Inr s' \<Longrightarrow> frame_pushed s s'"
  by (auto simp: cmd_ANIM_show_hide_def with_args_Inr bind_Inr
      dest!: frame_pushed_begin frames_with_top_animation frames_with_top_dataref
      elim: frame_pushed_cong)

lemma opener_rotate_begin:
  "cmd_ANIM_rotate_begin args s = Inr s' \<Longrightarrow> frame_pushed s s'"
  by (auto simp: cmd_ANIM_rotate_begin_def with_args_Inr bind_Inr
      dest!: frame_pushed_begin frames_with_top_animation frames_with_top_dataref
        frame_pushed_last_axis
      elim: frame_pushed_cong)

lemma opener_trans:
  "cmd_ANIM_trans args s = Inr s' \<Longrightarrow> frame_pushed s s'"
  by (auto simp: cmd_ANIM_trans_def with_args_Inr bind_Inr
      dest!: frame_pushed_begin frames_with_top_animation frames_with_top_dataref
      elim: frame_pushed_cong)

lemma opener_rotate:
  "cmd_ANIM_rotate args s = Inr s' \<Longrightarrow> frame_pushed s s'"
  by (auto simp: cmd_ANIM_rotate_def with_args_Inr bind_Inr
      dest!: frame_pushed_begin frames_with_top_animation frames_with_top_dataref
      elim: frame_pushed_cong)

lemma opener_effect:
  "opens_frame directive \<Longrightarrow> build_cmd directive args h s = Inr s' \<Longrightarrow> frame_pushed s s'"
  by (auto simp: opens_frame_def build_cmd_def
      dest: opener_trans_begin opener_show_hide opener_rotate_begin opener_trans opener_rotate)

lemma neutral_effect:
  assumes "\<not> opens_frame directive" and "directive \<noteq> ''ANIM_begin''" and "directive \<noteq> ''ANIM_end''"
    and "build_cmd directive args h s = Inr s'"
  shows "frames s' = frames s"
proof -
  have plain: "cmd_VT args s = Inr s' \<Longrightarrow> frames s' = frames s"
    "cmd_IDX args s = Inr s' \<Longrightarrow> frames s' = frames s"
    "cmd_IDX10 args s = Inr s' \<Longrightarrow> frames s' = frames s"
    "cmd_TRIS args h s = Inr s' \<Longrightarrow> frames s' = frames s"
    "cmd_ANIM_rotate_end s = Inr s' \<Longrightarrow> frames s' = frames s"
    by (auto simp: cmd_VT_def cmd_IDX_def cmd_IDX10_def cmd_TRIS_def cmd_ANIM_rotate_end_def
        with_args_Inr frames_def count_kind_def Let_def split: prod.splits)
  have keys: "cmd_ANIM_trans_key args s = Inr s' \<Longrightarrow> frames s' = frames s"
    "cmd_ANIM_rotate_key args s = Inr s' \<Longrightarrow> frames s' = frames s"
    "cmd_ANIM_keyframe_loop args s = Inr s' \<Longrightarrow> frames s' = frames s"
    by (auto simp: cmd_ANIM_trans_key_def cmd_ANIM_rotate_key_def cmd_ANIM_keyframe_loop_def
        with_args_Inr bind_Inr split: prod.splits option.splits
        dest!: frames_with_top_animation frames_with_top_dataref)
  from assms show ?thesis
    unfolding build_cmd_def opens_frame_def
    by (auto split: if_splits simp: UnsupportedDirective_def dest: plain keys)
qed


lemma pop_contexts_drop:
  "n \<le> length (anim_intermediate_stack s) \<Longrightarrow>
     pop_contexts n s = Inr (s\<lparr>anim_intermediate_stack := drop n (anim_intermediate_stack s)\<rparr>)"
proof (induction n arbitrary: s)
  case 0
  then show ?case by simp
next
  case (Suc n)
  then obtain e rest where st: "anim_intermediate_stack s = e # rest"
    by (cases "anim_intermediate_stack s") auto
  with Suc.prems have "n \<le> length (anim_intermediate_stack (s\<lparr>anim_intermediate_stack := rest\<rparr>))"
    by simp
  from Suc.IH [OF this] st show ?case by simp
qed

lemma run_append:
  "run (cs @ cs') s = (case run cs s of Inl e \<Rightarrow> Inl e | Inr s1 \<Rightarrow> run cs' s1)"
  by (induction cs arbitrary: s) (auto split: sum.splits)

lemma own_frames_balanced:
  "balanced cs \<Longrightarrow>
     own_frames (Suc depth) (cs @ (''ANIM_end'', a, h) # rest) = own_frames depth rest"
proof (induction cs arbitrary: depth rest a h rule: balanced.induct)
  case balanced_Nil
  then show ?case by simp
next
  case (balanced_Cons c cs)
  obtain directive args nh where c: "c = (directive, args, nh)" by (cases c)
  with balanced_Cons show ?case by simp
next
  case (balanced_pair cs cs' a1 h1 a2 h2)
  have "own_frames (Suc depth) (((''ANIM_begin'', a1, h1) # cs @ (''ANIM_end'', a2, h2) # cs')
            @ (''ANIM_end'', a, h) # rest)
      = own_frames (Suc (Suc depth)) (cs @ (''ANIM_end'', a2, h2) # (cs' @ (''ANIM_end'', a, h) # rest))"
    by simp
  also have "\<dots> = own_frames (Suc depth) (cs' @ (''ANIM_end'', a, h) # rest)"
    by (rule balanced_pair.IH(1))
  also have "\<dots> = own_frames depth rest"
    by (rule balanced_pair.IH(2))
  finally show ?case .
qed

lemma begin_effect:
  "build_cmd ''ANIM_begin'' a h s = Inr (s\<lparr>anim_count := 0 # anim_count s\<rparr>)"
  by (simp add: build_cmd_def cmd_ANIM_begin_def)

lemma end_effect:
  "anim_count s = c # cs \<Longrightarrow> c \<le> length (anim_intermediate_stack s) \<Longrightarrow>
     build_cmd ''ANIM_end'' a h s =
       Inr (s\<lparr>anim_count := cs, anim_intermediate_stack := drop c (anim_intermediate_stack s)\<rparr>)"
  by (simp add: build_cmd_def cmd_ANIM_end_def pop_contexts_drop)

lemma balanced_effect:
  "balanced cs \<Longrightarrow> run cs s = Inr s' \<Longrightarrow>
     (\<exists>new. anim_intermediate_stack s' = new @ anim_intermediate_stack s
        \<and> length new = own_frames 0 cs)
     \<and> anim_count s' = (case anim_count s of [] \<Rightarrow> [] | c # rest \<Rightarrow> (c + own_frames 0 cs) # rest)"
proof (induction cs arbitrary: s s' rule: balanced.induct)
  case balanced_Nil
  then show ?case by (auto split: list.splits)
next
  case (balanced_Cons c cs)
  obtain directive args nh where c: "c = (directive, args, nh)" by (cases c)
  from balanced_Cons.prems obtain s1 where
    step: "build_cmd directive args nh s = Inr s1" and rest: "run cs s1 = Inr s'"
    by (auto simp: c split: sum.splits)
  from balanced_Cons.hyps have nb: "directive \<noteq> ''ANIM_begin''" "directive \<noteq> ''ANIM_end''"
    by (simp_all add: c)
  note IH = balanced_Cons.IH [OF rest]
  show ?case
  proof (cases "opens_frame directive")
    case True
    from opener_effect [OF True step] obtain e k ks where
      k: "anim_count s = k # ks" and s1: "anim_intermediate_stack s1 = e # anim_intermediate_stack s"
        "anim_count s1 = Suc k # ks"
      by (auto simp: frame_pushed_def frames_def)
    from IH obtain new where new: "anim_intermediate_stack s' = new @ e # anim_intermediate_stack s"
      "length new = own_frames 0 cs" and cnt: "anim_count s' = (Suc k + own_frames 0 cs) # ks"
      by (auto simp: s1)
    have "anim_intermediate_stack s' = (new @ [e]) @ anim_intermediate_stack s"
      using new by simp
    moreover have "length (new @ [e]) = own_frames 0 (c # cs)"
      using new True nb by (simp add: c)
    ultimately show ?thesis
      using cnt k True nb by (simp add: c)
  next
    case False
    from neutral_effect [OF False nb step] have
      "anim_intermediate_stack s1 = anim_intermediate_stack s" "anim_count s1 = anim_count s"
      by (simp_all add: frames_def)
    with IH False nb show ?thesis by (auto simp: c split: list.splits)
  qed
next
  case (balanced_pair cs cs' a h a' h')
  let ?s0 = "s\<lparr>anim_count := 0 # anim_count s\<rparr>"
  from balanced_pair.prems have "run (cs @ (''ANIM_end'', a', h') # cs') ?s0 = Inr s'"
    by (simp add: begin_effect)
  then obtain s1 where inner: "run cs ?s0 = Inr s1"
    and after: "run ((''ANIM_end'', a', h') # cs') s1 = Inr s'"
    by (auto simp: run_append split: sum.splits)
  from balanced_pair.IH(1) [OF inner] obtain new where
    new: "anim_intermediate_stack s1 = new @ anim_intermediate_stack s"
      "length new = own_frames 0 cs"
    and cnt: "anim_count s1 = own_frames 0 cs # anim_count s"
    by auto
  have closed: "build_cmd ''ANIM_end'' a' h' s1 =
      Inr (s1\<lparr>anim_count := anim_count s, anim_intermediate_stack := anim_intermediate_stack s\<rparr>)"
    using end_effect [OF cnt, of a' h'] new by simp
  with after have tail: "run cs'
      (s1\<lparr>anim_count := anim_count s, anim_intermediate_stack := anim_intermediate_stack s\<rparr>) = Inr s'"
    by simp
  from balanced_pair.IH(2) [OF tail] show ?case
    by (auto simp: own_frames_balanced [OF balanced_pair.hyps(1)] split: list.splits)
qed

lemma frames_created:
  "run cs s = Inr s' \<Longrightarrow>
     count_kind EMPTY (blocks s') = count_kind EMPTY (blocks s) + all_frames cs"
proof (induction cs arbitrary: s)
  case Nil
  then show ?case by (simp add: all_frames_def)
next
  case (Cons c cs)
  obtain directive args nh where c: "c = (directive, args, nh)" by (cases c)
  from Cons.prems obtain s1 where
    step: "build_cmd directive args nh s = Inr s1" and rest: "run cs s1 = Inr s'"
    by (auto simp: c split: sum.splits)
  have "count_kind EMPTY (blocks s1) =
      count_kind EMPTY (blocks s) + (if opens_frame directive then 1 else 0)"
  proof (cases "opens_frame directive")
    case True
    from opener_effect [OF True step] show ?thesis
      by (auto simp: True frame_pushed_def frames_def)
  next
    case False
    show ?thesis
    proof (cases "directive = ''ANIM_begin'' \<or> directive = ''ANIM_end''")
      case True
      have "pop_contexts n t = Inr t' \<Longrightarrow> blocks t' = blocks t" for n t t'
        by (induction n arbitrary: t) (auto split: list.splits)
      with True step show ?thesis
        by (auto simp: False build_cmd_def cmd_ANIM_begin_def cmd_ANIM_end_def split: list.splits)
    next
      case nb: False
      with neutral_effect [OF False _ _ step] show ?thesis
        by (simp add: False frames_def)
    qed
  qed
  with Cons.IH [OF rest] show ?case
    by (simp add: c all_frames_def)
qed

text \<open>
  C1, as stated, fails when brackets nest. In \<open>ANIM_begin\<close>, \<open>nested_stream\<close>, \<open>ANIM_end\<close> two
  \<^verbatim>\<open>begin_new_frame\<close> calls happen between the outer pair (two empty nodes are created
  after the root), but the open-count the outer \<^verbatim>\<open>ANIM_end\<close> pops is 1: the inner call
  was counted by the inner bracket.
\<close>

theorem nested_frames_not_counted:
  "map_sum fst anim_count (run ((''ANIM_begin'', [], []) # nested_stream) (init_builder ''plane'' ''1a2b''))
     = Inr [1]
   \<and> all_frames nested_stream = 2
   \<and> map_sum fst (count_kind EMPTY \<circ> blocks)
       (run ((''ANIM_begin'', [], []) # nested_stream) (init_builder ''plane'' ''1a2b'')) = Inr 3
   \<and> count_kind EMPTY (blocks (init_builder ''plane'' ''1a2b'')) = 1"
  by (simp add: nested_stream_def all_frames_def opens_frame_def eval_simps numeral_2_eq_2)

text \<open>
  C1, amended. Let \<open>cs\<close> be a balanced stream processed without exception after an
  \<^verbatim>\<open>ANIM_begin\<close>. The open-count that the matching \<^verbatim>\<open>ANIM_end\<close> pops is the number of
  \<^verbatim>\<open>begin_new_frame\<close> invocations between the pair that are not enclosed in a nested
  pair (of the \<open>all_frames cs\<close> invocations in all, one empty node each); that
  \<^verbatim>\<open>ANIM_end\<close> succeeds and leaves the context stack, and the open-count stack, exactly
  as they were immediately before the \<^verbatim>\<open>ANIM_begin\<close>.
\<close>

theorem bracket_balance:
  assumes "balanced cs"
    and "run ((''ANIM_begin'', a, h) # cs) self = Inr s1"
  shows "\<exists>s2. anim_count s1 = own_frames 0 cs # anim_count self
     \<and> build_cmd ''ANIM_end'' a' h' s1 = Inr s2
     \<and> anim_intermediate_stack s2 = anim_intermediate_stack self
     \<and> length (anim_intermediate_stack s2) = length (anim_intermediate_stack self)
     \<and> length (anim_intermediate_stack s1) = length (anim_intermediate_stack self) + own_frames 0 cs
     \<and> anim_count s2 = anim_count self
     \<and> count_kind EMPTY (blocks s1) = count_kind EMPTY (blocks self) + all_frames cs"
proof -
  from assms(2) have inner: "run cs (self\<lparr>anim_count := 0 # anim_count self\<rparr>) = Inr s1"
    by (simp add: begin_effect)
  from balanced_effect [OF assms(1) inner] obtain new where
    new: "anim_intermediate_stack s1 = new @ anim_intermediate_stack self"
      "length new = own_frames 0 cs"
    and cnt: "anim_count s1 = own_frames 0 cs # anim_count self"
    by auto
  from frames_created [OF inner]
  have "count_kind EMPTY (blocks s1) = count_kind EMPTY (blocks self) + all_frames cs"
    by simp
  with end_effect [OF cnt, of a' h'] new cnt show ?thesis by simp
qed

theorem bracket_balance_witness:
  "balanced nested_stream
   \<and> (\<exists>s1 s2. run ((''ANIM_begin'', [], []) # nested_stream) (init_builder ''plane'' ''1a2b'') = Inr s1
        \<and> own_frames 0 nested_stream = 1
        \<and> anim_count s1 = [1]
        \<and> length (anim_intermediate_stack s1) = 1
        \<and> build_cmd ''ANIM_end'' [] [] s1 = Inr s2
        \<and> anim_intermediate_stack s2 = []
        \<and> anim_count s2 = [])"
proof -
  have "balanced [(''ANIM_trans_begin'', [AStr ''sim/b''], [])]"
    by (rule balanced_Cons) (simp_all add: balanced_Nil)
  from balanced_pair [OF this balanced_Nil, of "[]" "[]" "[]" "[]"]
  have inner: "balanced [(''ANIM_begin'', [], []), (''ANIM_trans_begin'', [AStr ''sim/b''], []),
      (''ANIM_end'', [], [])]"
    by simp
  have b: "balanced nested_stream"
    unfolding nested_stream_def by (rule balanced_Cons) (simp_all add: inner)
  have "\<exists>s1. run ((''ANIM_begin'', [], []) # nested_stream) (init_builder ''plane'' ''1a2b'') = Inr s1"
    by (simp add: nested_stream_def eval_simps numeral_2_eq_2)
  then obtain s1 where
    r: "run ((''ANIM_begin'', [], []) # nested_stream) (init_builder ''plane'' ''1a2b'') = Inr s1"
    by blast
  have o: "own_frames 0 nested_stream = 1"
    by (simp add: nested_stream_def opens_frame_def)
  have i: "anim_count (init_builder ''plane'' ''1a2b'') = []"
    "anim_intermediate_stack (init_builder ''plane'' ''1a2b'') = []"
    by (simp_all add: init_builder_def)
  from bracket_balance [OF b r, of "[]" "[]"] b r show ?thesis
    by (auto simp: o i simp del: run.simps)
qed

end
